theory Spec2Isabelle
  imports Main "HOL-Library.Word"
begin

section \<open>Errors\<close>

text \<open>
  Errors the broker client (admin client, producers) hands back. The producer only ever
  tells one of them apart: \<open>ErrKafkaBrokerConfigNotFound\<close>; every other one is opaque.
\<close>

datatype facade_error = ErrKafkaBrokerConfigNotFound | ErrFacade string

datatype ctx_error = Canceled | DeadlineExceeded

text \<open>
  The errors a caller of the producer can see. \<open>errors.Trace\<close> only attaches a stack
  and is the identity here. \<open>ErrKafkaInvalidConfig\<close> carries the \<open>configFrom\<close> argument
  of its message; \<open>ErrAtoi\<close> is the \<open>*strconv.NumError\<close> of \<open>strconv.Atoi\<close>.
\<close>

datatype error =
    ErrKafkaInvalidConfig string
  | ErrKafkaFlushUnfinished
  | ErrKafkaSendMessage facade_error
  | ErrKafkaAsyncSendMessage facade_error
  | ErrAtoi string
  | ErrFromFacade facade_error
  | ErrContext ctx_error
  | ErrInjected

section \<open>Reconciling the options with the broker: \<open>AdjustOptions\<close>\<close>

subsection \<open>\<open>strconv.Atoi\<close>\<close>

definition digit_of :: "char \<Rightarrow> nat option" where
  "digit_of c =
     (if of_char (CHR ''0'') \<le> (of_char c :: nat) \<and> (of_char c :: nat) \<le> of_char (CHR ''9'')
      then Some (of_char c - of_char (CHR ''0'')) else None)"

fun parse_digits :: "string \<Rightarrow> nat \<Rightarrow> nat option" where
  "parse_digits [] acc = Some acc"
| "parse_digits (c # cs) acc =
     (case digit_of c of None \<Rightarrow> None | Some d \<Rightarrow> parse_digits cs (acc * 10 + d))"

text \<open>
  Go's \<open>strconv.Atoi\<close> on a 64-bit platform: an optional sign, then at least one decimal
  digit and nothing else; a value outside the \<open>int\<close> range is an error as well.
\<close>

definition Atoi :: "string \<Rightarrow> error + int" where
  "Atoi s =
     (case s of
        [] \<Rightarrow> Inl (ErrAtoi s)
      | c # cs \<Rightarrow>
          (let neg = (c = CHR ''-'');
               ds = (if c = CHR ''-'' \<or> c = CHR ''+'' then cs else s)
           in if ds = [] then Inl (ErrAtoi s)
              else (case parse_digits ds 0 of
                      None \<Rightarrow> Inl (ErrAtoi s)
                    | Some n \<Rightarrow>
                        (let v = (if neg then - int n else int n)
                         in if v < - (2 ^ 63) \<or> 2 ^ 63 - 1 < v then Inl (ErrAtoi s)
                            else Inr v))))"

subsection \<open>The admin client and the options\<close>

type_synonym int32 = "32 word"

type_synonym int64 = "64 word"

record TopicDetail =
  NumPartitions :: int32
  ConfigEntries :: "string \<rightharpoonup> string"

text \<open>
  \<open>kafka.ClusterAdminClient\<close>, as far as \<open>AdjustOptions\<close> uses it: the answers of
  \<open>GetAllTopicsMeta()\<close> and of \<open>GetBrokerConfig(name)\<close>.
\<close>

record ClusterAdminClient =
  GetAllTopicsMeta :: "facade_error + (string \<rightharpoonup> TopicDetail)"
  GetBrokerConfig :: "string \<Rightarrow> facade_error + string"

text \<open>
  \<open>kafka.Options\<close>, as far as \<open>AdjustOptions\<close> uses it. \<open>ReplicationFactor\<close> is read through
  \<open>int(options.ReplicationFactor)\<close> and is that integer here; \<open>MaxMessageBytes\<close> is an \<open>int\<close>
  that is only compared and assigned.
\<close>

record Options =
  MaxMessageBytes :: int
  PartitionNum :: int32
  ReplicationFactor :: int
  AutoCreate :: bool

text \<open>
  Modelled from the spec: the configuration names \<open>kafka.TopicMaxMessageBytesConfigName\<close>,
  \<open>kafka.BrokerMessageMaxBytesConfigName\<close> and \<open>kafka.MinInsyncReplicasConfigName\<close> are
  declared in package \<open>pkg/sink/kafka\<close>; the spec and the log messages of
  \<open>AdjustOptions\<close> name them \<open>max.message.bytes\<close>, \<open>message.max.bytes\<close> and
  \<open>min.insync.replicas\<close>.
\<close>

definition TopicMaxMessageBytesConfigName :: string where
  "TopicMaxMessageBytesConfigName = ''max.message.bytes''"

definition BrokerMessageMaxBytesConfigName :: string where
  "BrokerMessageMaxBytesConfigName = ''message.max.bytes''"

definition MinInsyncReplicasConfigName :: string where
  "MinInsyncReplicasConfigName = ''min.insync.replicas''"

definition defaultPartitionNum :: int32 where
  "defaultPartitionNum = 3"

text \<open>
  Modelled from the spec: \<open>Options.SetPartitionNum\<close> is a method of package
  \<open>pkg/sink/kafka\<close>, called by \<open>AdjustOptions\<close> and defined outside these sources. The
  spec: "Set \<open>options.partitionCount\<close> to the topic's actual partition count, overriding
  any user-specified value".
\<close>

definition SetPartitionNum :: "Options \<Rightarrow> int32 \<Rightarrow> error + Options" where
  "SetPartitionNum options realPartitionCount =
     Inr (options\<lparr>PartitionNum := realPartitionCount\<rparr>)"

definition getTopicConfig ::
  "ClusterAdminClient \<Rightarrow> TopicDetail \<Rightarrow> string \<Rightarrow> string \<Rightarrow> facade_error + string" where
  "getTopicConfig admin detail topicConfigName brokerConfigName =
     (case ConfigEntries detail topicConfigName of
        Some a \<Rightarrow> Inr a
      | None \<Rightarrow> GetBrokerConfig admin brokerConfigName)"

text \<open>The closure of \<open>validateMinInsyncReplicas\<close>: the value, whether the topic exists, the error.\<close>

definition minInsyncReplicasConfigGetter ::
  "ClusterAdminClient \<Rightarrow> (string \<rightharpoonup> TopicDetail) \<Rightarrow> string \<Rightarrow> bool \<times> (facade_error + string)" where
  "minInsyncReplicasConfigGetter admin topics topic =
     (case topics topic of
        Some info \<Rightarrow>
          (True, getTopicConfig admin info MinInsyncReplicasConfigName MinInsyncReplicasConfigName)
      | None \<Rightarrow> (False, GetBrokerConfig admin MinInsyncReplicasConfigName))"

definition validateMinInsyncReplicas ::
  "ClusterAdminClient \<Rightarrow> (string \<rightharpoonup> TopicDetail) \<Rightarrow> string \<Rightarrow> int \<Rightarrow> error option" where
  "validateMinInsyncReplicas admin topics topic replicationFactor =
     (case minInsyncReplicasConfigGetter admin topics topic of
        (exists, Inl err) \<Rightarrow>
          (if err = ErrKafkaBrokerConfigNotFound then None else Some (ErrFromFacade err))
      | (exists, Inr minInsyncReplicasStr) \<Rightarrow>
          (case Atoi minInsyncReplicasStr of
             Inl err \<Rightarrow> Some err
           | Inr minInsyncReplicas \<Rightarrow>
               (let configFrom = (if \<not> exists then ''broker'' else ''topic'')
                in if replicationFactor < minInsyncReplicas
                   then Some (ErrKafkaInvalidConfig configFrom)
                   else None)))"

definition AdjustOptions :: "ClusterAdminClient \<Rightarrow> Options \<Rightarrow> string \<Rightarrow> error + Options" where
  "AdjustOptions admin options topic =
     (case GetAllTopicsMeta admin of
        Inl err \<Rightarrow> Inl (ErrFromFacade err)
      | Inr topics \<Rightarrow>
          (case validateMinInsyncReplicas admin topics topic (ReplicationFactor options) of
             Some err \<Rightarrow> Inl err
           | None \<Rightarrow>
               (case topics topic of
                  Some info \<Rightarrow>
                    (case getTopicConfig admin info TopicMaxMessageBytesConfigName
                            BrokerMessageMaxBytesConfigName of
                       Inl err \<Rightarrow> Inl (ErrFromFacade err)
                     | Inr topicMaxMessageBytesStr \<Rightarrow>
                         (case Atoi topicMaxMessageBytesStr of
                            Inl err \<Rightarrow> Inl err
                          | Inr topicMaxMessageBytes \<Rightarrow>
                              (let options1 =
                                     (if topicMaxMessageBytes < MaxMessageBytes options
                                      then options\<lparr>MaxMessageBytes := topicMaxMessageBytes\<rparr>
                                      else options)
                               in SetPartitionNum options1 (NumPartitions info))))
                | None \<Rightarrow>
                    (case GetBrokerConfig admin BrokerMessageMaxBytesConfigName of
                       Inl err \<Rightarrow> Inl (ErrFromFacade err)
                     | Inr brokerMessageMaxBytesStr \<Rightarrow>
                         (case Atoi brokerMessageMaxBytesStr of
                            Inl err \<Rightarrow> Inl err
                          | Inr brokerMessageMaxBytes \<Rightarrow>
                              (let options1 =
                                     (if brokerMessageMaxBytes < MaxMessageBytes options
                                      then options\<lparr>MaxMessageBytes := brokerMessageMaxBytes\<rparr>
                                      else options)
                               in Inr (if PartitionNum options1 = 0
                                       then options1\<lparr>PartitionNum := defaultPartitionNum\<rparr>
                                       else options1)))))))"

text \<open>
  The claim's words for the applicable \<open>min.insync.replicas\<close>: the topic-level entry if the
  topic exists and carries it, otherwise the broker-level value. It is compared below with
  what \<open>minInsyncReplicasConfigGetter\<close> computes.
\<close>

definition applicableMinInsyncReplicas ::
  "ClusterAdminClient \<Rightarrow> (string \<rightharpoonup> TopicDetail) \<Rightarrow> string \<Rightarrow> facade_error + string" where
  "applicableMinInsyncReplicas admin topics topic =
     (case topics topic of
        None \<Rightarrow> GetBrokerConfig admin MinInsyncReplicasConfigName
      | Some info \<Rightarrow>
          (case ConfigEntries info MinInsyncReplicasConfigName of
             Some v \<Rightarrow> Inr v
           | None \<Rightarrow> GetBrokerConfig admin MinInsyncReplicasConfigName))"

text \<open>
  The words of the spec for the topic's effective \<open>max.message.bytes\<close>: the topic's own
  entry \<open>max.message.bytes\<close> if it carries one, otherwise the broker's \<open>message.max.bytes\<close>.
  It is stated on the answers of the admin client, not through \<open>getTopicConfig\<close>.
\<close>

definition effectiveMaxMessageBytes ::
  "ClusterAdminClient \<Rightarrow> TopicDetail \<Rightarrow> facade_error + string" where
  "effectiveMaxMessageBytes admin info =
     (case ConfigEntries info ''max.message.bytes'' of
        Some v \<Rightarrow> Inr v
      | None \<Rightarrow> GetBrokerConfig admin ''message.max.bytes'')"

text \<open>
  An admin client for the scenarios: it knows the given topics and broker configuration, and
  answers \<open>ErrKafkaBrokerConfigNotFound\<close> for any other broker configuration name.
\<close>

definition scenario_admin ::
  "(string \<rightharpoonup> TopicDetail) \<Rightarrow> (string \<rightharpoonup> string) \<Rightarrow> ClusterAdminClient" where
  "scenario_admin topics broker =
     \<lparr>GetAllTopicsMeta = Inr topics,
      GetBrokerConfig = (\<lambda>name. case broker name of
                           None \<Rightarrow> Inl ErrKafkaBrokerConfigNotFound | Some v \<Rightarrow> Inr v)\<rparr>"

definition scenario_options :: Options where
  "scenario_options =
     \<lparr>MaxMessageBytes = 1000, PartitionNum = 0, ReplicationFactor = 1, AutoCreate = False\<rparr>"

section \<open>The producer\<close>

subsection \<open>State\<close>

datatype kafkaProducerClosingFlag = kafkaProducerRunning | kafkaProducerClosing

datatype resource = Client | AsyncProducer | SyncProducer | AdminClient

text \<open>
  The fields of \<open>kafkaSaramaProducer\<close> that change. A channel made by \<open>Flush\<close> is known by
  its number; \<open>closeCh\<close> is only ever closed, so it is \<open>True\<close> once closed. \<open>inflight\<close> is
  an \<open>int64\<close>: \<open>++\<close> and \<open>--\<close> wrap around, and \<open>sint\<close> reads its value.
\<close>

record kafkaSaramaProducer =
  producersReleased :: bool
  inflight :: int64
  flushDone :: "nat option"
  failpointCh :: "error list"
  closeCh :: bool
  closing :: kafkaProducerClosingFlag

text \<open>
  Where each thread of control stands. \<open>AsyncSendMessage\<close> and \<open>Flush\<close> are called from one
  thread only (the documented contract), so one position describes their caller:
  idle, past the closing check of \<open>AsyncSendMessage\<close> (holding \<open>clientLock\<close> for reading),
  past \<open>inflight++\<close> and at the \<open>select\<close>, or at the \<open>select\<close> of \<open>Flush\<close> with its channel.
  The goroutine of \<open>run\<close> is in its loop, has left it with a result and has the deferred
  \<open>stop()\<close> to do, has won the swap in \<open>stop()\<close> and is about to close \<open>closeCh\<close>, or is done.
\<close>

datatype sender_pc = Idle | SendChecked | SendCounted | FlushWaiting nat

datatype run_pc =
    RunLooping
  | RunDeferred "error option"
  | RunClosingCh "error option"
  | RunExited "error option"

text \<open>
  The producer with its surroundings.
  \<^item> \<open>failpointEnabled\<close>: whether the failpoint \<open>KafkaSinkAsyncSendError\<close> is on (a test
    turns it on and off; it is off in a build without failpoints).
  \<^item> \<open>accepted\<close>: the messages the async producer took from \<open>Input()\<close> and has not yet
    reported on \<open>Successes()\<close> or \<open>Errors()\<close>; it reports each message it took once.
  \<^item> \<open>chanMade\<close>, \<open>chanBuf\<close>: how many channels \<open>Flush\<close> has made, and how many values the
    buffer (of capacity 1) of each holds.
  \<^item> \<open>closersInStop\<close>: calls of \<open>Close\<close> that won the swap in \<open>stop()\<close> and have yet to close
    \<open>closeCh\<close>; \<open>closersAtLock\<close>: calls of \<open>Close\<close> that are through \<open>stop()\<close> and have yet
    to take \<open>clientLock\<close>.
  The remaining fields record what has happened: every \<open>Close()\<close> of a resource with its
  result, in order; how often \<open>close(k.closeCh)\<close> ran (a second time panics in Go); how
  often the flag went from running to closing; the calls of \<open>stop\<close>; the calls of
  \<open>AsyncSendMessage\<close>, those that returned at the closing check, those the failpoint
  answered, those that reached \<open>inflight++\<close>, those handed to \<open>Input()\<close>; the acknowledgments
  \<open>run\<close> has consumed; the calls of \<open>syncProducer.SendMessages\<close>.
\<close>

record system = kafkaSaramaProducer +
  failpointEnabled :: bool
  accepted :: nat
  chanMade :: nat
  chanBuf :: "nat \<Rightarrow> nat"
  sender :: sender_pc
  runLoop :: run_pc
  closersInStop :: nat
  closersAtLock :: nat
  released :: "(resource \<times> facade_error option) list"
  closeChCloses :: nat
  transitions :: nat
  stopCalls :: nat
  sendCalls :: nat
  sendDropped :: nat
  sendInjected :: nat
  sendCounted :: nat
  handedOver :: nat
  acksConsumed :: nat
  syncSends :: nat

text \<open>
  \<open>NewKafkaSaramaProducer\<close>, once both producers have been created. What its goroutine
  does with the result of \<open>run\<close> (it offers the error to \<open>errCh\<close>) is outside this model.
\<close>

definition NewKafkaSaramaProducer :: "bool \<Rightarrow> system" where
  "NewKafkaSaramaProducer fp =
     \<lparr>producersReleased = False, inflight = 0, flushDone = None, failpointCh = [],
      closeCh = False, closing = kafkaProducerRunning,
      failpointEnabled = fp, accepted = 0, chanMade = 0, chanBuf = (\<lambda>_. 0),
      sender = Idle, runLoop = RunLooping, closersInStop = 0, closersAtLock = 0,
      released = [], closeChCloses = 0, transitions = 0, stopCalls = 0,
      sendCalls = 0, sendDropped = 0, sendInjected = 0, sendCounted = 0, handedOver = 0,
      acksConsumed = 0, syncSends = 0\<rparr>"

text \<open>What a step leaves its thread with: the method goes on, or it returns.\<close>

datatype ret = Continues | Returns "error option"

text \<open>\<open>cerror.WrapError\<close>: \<open>nil\<close> stays \<open>nil\<close>.\<close>

definition WrapError :: "(facade_error \<Rightarrow> error) \<Rightarrow> facade_error option \<Rightarrow> error option" where
  "WrapError rfc err = (case err of None \<Rightarrow> None | Some e \<Rightarrow> Some (rfc e))"

subsection \<open>\<open>stop\<close> and \<open>Close\<close>\<close>

text \<open>\<open>atomic.SwapInt32(&k.closing, kafkaProducerClosing)\<close>: the old value and the new state.\<close>

definition swap_closing :: "system \<Rightarrow> kafkaProducerClosingFlag \<times> system" where
  "swap_closing k =
     (closing k,
      k\<lparr>closing := kafkaProducerClosing,
        stopCalls := stopCalls k + 1,
        transitions := transitions k + (if closing k = kafkaProducerRunning then 1 else 0)\<rparr>)"

definition close_closeCh :: "system \<Rightarrow> system" where
  "close_closeCh k = k\<lparr>closeCh := True, closeChCloses := closeChCloses k + 1\<rparr>"

definition stop :: "system \<Rightarrow> system" where
  "stop k =
     (case swap_closing k of
        (old, k') \<Rightarrow> if old = kafkaProducerClosing then k' else close_closeCh k')"

text \<open>One \<open>Close()\<close> of a resource: \<open>res\<close> is what each resource answers.\<close>

definition close_resource ::
  "(resource \<Rightarrow> facade_error option) \<Rightarrow> resource \<Rightarrow> system \<Rightarrow> facade_error option \<times> system" where
  "close_resource res r k = (res r, k\<lparr>released := released k @ [(r, res r)]\<rparr>)"

text \<open>
  \<open>Close\<close> from \<open>k.clientLock.Lock()\<close> on. Each error is logged and otherwise dropped.
\<close>

definition Close_locked ::
  "(resource \<Rightarrow> facade_error option) \<Rightarrow> system \<Rightarrow> error option \<times> system" where
  "Close_locked res k =
     (if producersReleased k then (None, k)
      else
        (let k0 = k\<lparr>producersReleased := True\<rparr>;
             (err1, k1) = close_resource res Client k0;
             (err2, k2) = close_resource res AsyncProducer k1;
             (err3, k3) = close_resource res SyncProducer k2;
             (err4, k4) = close_resource res AdminClient k3
         in (None, k4)))"

text \<open>A whole call of \<open>Close\<close> that no other thread interleaves with.\<close>

definition Close :: "(resource \<Rightarrow> facade_error option) \<Rightarrow> system \<Rightarrow> error option \<times> system" where
  "Close res k = Close_locked res (stop k)"

text \<open>
  The same call in steps, for any number of callers: the swap of \<open>stop()\<close>; for the caller
  that won it, \<open>close(k.closeCh)\<close>; then the part under \<open>clientLock\<close>, which waits while the
  sender holds the lock for reading.
\<close>

definition Close_swap :: "system \<Rightarrow> (ret \<times> system) option" where
  "Close_swap k =
     (case swap_closing k of
        (old, k') \<Rightarrow>
          if old = kafkaProducerClosing
          then Some (Continues, k'\<lparr>closersAtLock := closersAtLock k' + 1\<rparr>)
          else Some (Continues, k'\<lparr>closersInStop := closersInStop k' + 1\<rparr>))"

definition Close_closeCh :: "system \<Rightarrow> (ret \<times> system) option" where
  "Close_closeCh k =
     (if closersInStop k = 0 then None
      else Some (Continues,
                 (close_closeCh k)\<lparr>closersInStop := closersInStop k - 1,
                                    closersAtLock := closersAtLock k + 1\<rparr>))"

definition Close_release ::
  "(resource \<Rightarrow> facade_error option) \<Rightarrow> system \<Rightarrow> (ret \<times> system) option" where
  "Close_release res k =
     (if closersAtLock k = 0 \<or> sender k = SendChecked \<or> sender k = SendCounted then None
      else (case Close_locked res (k\<lparr>closersAtLock := closersAtLock k - 1\<rparr>) of
              (err, k') \<Rightarrow> Some (Returns err, k')))"

subsection \<open>\<open>AsyncSendMessage\<close>\<close>

text \<open>
  A \<open>select\<close> takes one of the cases that can proceed; which one is the scheduler's choice,
  and a step that names a case that cannot proceed is not enabled (\<open>None\<close>). \<open>ctx\<close> is
  \<open>ctx.Err()\<close> at that moment: \<open>None\<close> while the context is not done.
\<close>

datatype send_case = SendCtxDone | SendCloseCh | SendInput

definition AsyncSendMessage_enter :: "system \<Rightarrow> (ret \<times> system) option" where
  "AsyncSendMessage_enter k =
     (if sender k \<noteq> Idle then None
      else if closing k = kafkaProducerClosing
      then Some (Returns None,
                 k\<lparr>sendCalls := sendCalls k + 1, sendDropped := sendDropped k + 1\<rparr>)
      else Some (Continues, k\<lparr>sendCalls := sendCalls k + 1, sender := SendChecked\<rparr>))"

text \<open>The failpoint: the send to \<open>failpointCh\<close> waits while its buffer is full.\<close>

definition AsyncSendMessage_failpoint :: "system \<Rightarrow> (ret \<times> system) option" where
  "AsyncSendMessage_failpoint k =
     (if sender k = SendChecked \<and> failpointEnabled k \<and> failpointCh k = []
      then Some (Returns None,
                 k\<lparr>failpointCh := [ErrInjected], sendInjected := sendInjected k + 1,
                   sender := Idle\<rparr>)
      else None)"

definition AsyncSendMessage_count :: "system \<Rightarrow> (ret \<times> system) option" where
  "AsyncSendMessage_count k =
     (if sender k = SendChecked \<and> \<not> failpointEnabled k
      then Some (Continues,
                 k\<lparr>inflight := inflight k + 1, sendCounted := sendCounted k + 1,
                   sender := SendCounted\<rparr>)
      else None)"

definition AsyncSendMessage_select ::
  "ctx_error option \<Rightarrow> send_case \<Rightarrow> system \<Rightarrow> (ret \<times> system) option" where
  "AsyncSendMessage_select ctx c k =
     (if sender k \<noteq> SendCounted then None
      else (case c of
              SendCtxDone \<Rightarrow>
                (case ctx of
                   None \<Rightarrow> None
                 | Some e \<Rightarrow> Some (Returns (Some (ErrContext e)), k\<lparr>sender := Idle\<rparr>))
            | SendCloseCh \<Rightarrow>
                if closeCh k then Some (Returns None, k\<lparr>sender := Idle\<rparr>) else None
            | SendInput \<Rightarrow>
                Some (Returns None,
                      k\<lparr>accepted := accepted k + 1, handedOver := handedOver k + 1,
                        sender := Idle\<rparr>)))"

text \<open>A test turns the failpoint on or off.\<close>

definition set_failpoint :: "bool \<Rightarrow> system \<Rightarrow> (ret \<times> system) option" where
  "set_failpoint b k = Some (Continues, k\<lparr>failpointEnabled := b\<rparr>)"

subsection \<open>\<open>SyncBroadcastMessage\<close>\<close>

datatype sync_case = SyncCtxDone | SyncCloseCh | SyncDefault

text \<open>
  \<open>sendMessages\<close> is what \<open>syncProducer.SendMessages\<close> answers. The \<open>default\<close> case is taken
  only when no other case can proceed.
\<close>

definition SyncBroadcastMessage ::
  "ctx_error option \<Rightarrow> facade_error option \<Rightarrow> sync_case \<Rightarrow> system \<Rightarrow> (ret \<times> system) option" where
  "SyncBroadcastMessage ctx sendMessages c k =
     (case c of
        SyncCtxDone \<Rightarrow>
          (case ctx of None \<Rightarrow> None | Some e \<Rightarrow> Some (Returns (Some (ErrContext e)), k))
      | SyncCloseCh \<Rightarrow> if closeCh k then Some (Returns None, k) else None
      | SyncDefault \<Rightarrow>
          if ctx = None \<and> \<not> closeCh k
          then Some (Returns (WrapError ErrKafkaSendMessage sendMessages),
                     k\<lparr>syncSends := syncSends k + 1\<rparr>)
          else None)"

subsection \<open>\<open>Flush\<close>\<close>

datatype flush_case = FlushCloseCh | FlushCtxDone | FlushDone

text \<open>\<open>Flush\<close> up to its \<open>select\<close>: the new channel is empty.\<close>

definition Flush_enter :: "system \<Rightarrow> (ret \<times> system) option" where
  "Flush_enter k =
     (if sender k \<noteq> Idle then None
      else
        (let done = chanMade k;
             k1 = k\<lparr>chanMade := chanMade k + 1, chanBuf := (chanBuf k)(done := 0)\<rparr>;
             immediateFlush = (inflight k1 = 0)
         in if immediateFlush then Some (Returns None, k1)
            else Some (Continues, k1\<lparr>flushDone := Some done, sender := FlushWaiting done\<rparr>)))"

definition Flush_select ::
  "ctx_error option \<Rightarrow> flush_case \<Rightarrow> system \<Rightarrow> (ret \<times> system) option" where
  "Flush_select ctx c k =
     (case sender k of
        FlushWaiting done \<Rightarrow>
          (case c of
             FlushCloseCh \<Rightarrow>
               if closeCh k
               then Some (Returns (Some ErrKafkaFlushUnfinished), k\<lparr>sender := Idle\<rparr>)
               else None
           | FlushCtxDone \<Rightarrow>
               (case ctx of
                  None \<Rightarrow> None
                | Some e \<Rightarrow> Some (Returns (Some (ErrContext e)), k\<lparr>sender := Idle\<rparr>))
           | FlushDone \<Rightarrow>
               if 0 < chanBuf k done
               then Some (Returns None,
                          k\<lparr>chanBuf := (chanBuf k)(done := chanBuf k done - 1),
                            sender := Idle\<rparr>)
               else None)
      | _ \<Rightarrow> None)"

subsection \<open>\<open>run\<close>\<close>

text \<open>
  The cases of the \<open>select\<close> of \<open>run\<close>. \<open>RunSuccesses True\<close> receives a message from
  \<open>Successes()\<close>, \<open>RunSuccesses False\<close> receives \<open>nil\<close> from the closed channel;
  \<open>RunErrors (Some e)\<close> receives an error from \<open>Errors()\<close>, \<open>RunErrors None\<close> receives \<open>nil\<close>
  from the closed channel. The async producer closes both channels when it is closed.
\<close>

datatype run_case =
    RunCtxDone
  | RunCloseCh
  | RunFailpoint
  | RunSuccesses bool
  | RunErrors "facade_error option"

definition asyncProducerClosed :: "system \<Rightarrow> bool" where
  "asyncProducerClosed k = (AsyncProducer \<in> fst ` set (released k))"

text \<open>
  The body of \<open>if ack != nil\<close>. The send to \<open>flushDone\<close> waits while the buffer of that
  channel is full.
\<close>

definition ack_received :: "system \<Rightarrow> system option" where
  "ack_received k =
     (let k1 = k\<lparr>inflight := inflight k - 1, acksConsumed := acksConsumed k + 1\<rparr>
      in (case flushDone k1 of
            None \<Rightarrow> Some k1
          | Some done \<Rightarrow>
              if inflight k1 = 0
              then (if 1 \<le> chanBuf k1 done then None
                    else Some (k1\<lparr>chanBuf := (chanBuf k1)(done := chanBuf k1 done + 1),
                                 flushDone := None\<rparr>))
              else Some k1))"

definition run_select :: "ctx_error option \<Rightarrow> run_case \<Rightarrow> system \<Rightarrow> (ret \<times> system) option" where
  "run_select ctx c k =
     (if runLoop k \<noteq> RunLooping then None
      else (case c of
              RunCtxDone \<Rightarrow>
                (case ctx of
                   None \<Rightarrow> None
                 | Some e \<Rightarrow> Some (Continues, k\<lparr>runLoop := RunDeferred (Some (ErrContext e))\<rparr>))
            | RunCloseCh \<Rightarrow>
                if closeCh k then Some (Continues, k\<lparr>runLoop := RunDeferred None\<rparr>) else None
            | RunFailpoint \<Rightarrow>
                (case failpointCh k of
                   [] \<Rightarrow> None
                 | err # rest \<Rightarrow>
                     Some (Continues, k\<lparr>failpointCh := rest, runLoop := RunDeferred (Some err)\<rparr>))
            | RunSuccesses True \<Rightarrow>
                if 0 < accepted k
                then (case ack_received (k\<lparr>accepted := accepted k - 1\<rparr>) of
                        None \<Rightarrow> None
                      | Some k' \<Rightarrow> Some (Continues, k'))
                else None
            | RunSuccesses False \<Rightarrow>
                if asyncProducerClosed k then Some (Continues, k) else None
            | RunErrors (Some e) \<Rightarrow>
                if 0 < accepted k
                then Some (Continues,
                           k\<lparr>accepted := accepted k - 1,
                             runLoop := RunDeferred (Some (ErrKafkaAsyncSendMessage e))\<rparr>)
                else None
            | RunErrors None \<Rightarrow>
                if asyncProducerClosed k then Some (Continues, k\<lparr>runLoop := RunDeferred None\<rparr>)
                else None))"

text \<open>The deferred \<open>stop()\<close> of \<open>run\<close>, in its two steps.\<close>

definition run_defer_swap :: "system \<Rightarrow> (ret \<times> system) option" where
  "run_defer_swap k =
     (case runLoop k of
        RunDeferred r \<Rightarrow>
          (case swap_closing k of
             (old, k') \<Rightarrow>
               if old = kafkaProducerClosing then Some (Returns r, k'\<lparr>runLoop := RunExited r\<rparr>)
               else Some (Continues, k'\<lparr>runLoop := RunClosingCh r\<rparr>))
      | _ \<Rightarrow> None)"

definition run_defer_closeCh :: "system \<Rightarrow> (ret \<times> system) option" where
  "run_defer_closeCh k =
     (case runLoop k of
        RunClosingCh r \<Rightarrow> Some (Returns r, (close_closeCh k)\<lparr>runLoop := RunExited r\<rparr>)
      | _ \<Rightarrow> None)"

subsection \<open>Executions\<close>

datatype action =
    ASendEnter
  | ASendFailpoint
  | ASendCount
  | ASendSelect "ctx_error option" send_case
  | ASyncBroadcast "ctx_error option" "facade_error option" sync_case
  | AFlushEnter
  | AFlushSelect "ctx_error option" flush_case
  | ARunSelect "ctx_error option" run_case
  | ARunDeferSwap
  | ARunDeferCloseCh
  | ACloseSwap
  | ACloseCloseCh
  | ACloseRelease "resource \<Rightarrow> facade_error option"
  | ASetFailpoint bool

fun step :: "action \<Rightarrow> system \<Rightarrow> (ret \<times> system) option" where
  "step ASendEnter k = AsyncSendMessage_enter k"
| "step ASendFailpoint k = AsyncSendMessage_failpoint k"
| "step ASendCount k = AsyncSendMessage_count k"
| "step (ASendSelect ctx c) k = AsyncSendMessage_select ctx c k"
| "step (ASyncBroadcast ctx sendMessages c) k = SyncBroadcastMessage ctx sendMessages c k"
| "step AFlushEnter k = Flush_enter k"
| "step (AFlushSelect ctx c) k = Flush_select ctx c k"
| "step (ARunSelect ctx c) k = run_select ctx c k"
| "step ARunDeferSwap k = run_defer_swap k"
| "step ARunDeferCloseCh k = run_defer_closeCh k"
| "step ACloseSwap k = Close_swap k"
| "step ACloseCloseCh k = Close_closeCh k"
| "step (ACloseRelease res) k = Close_release res k"
| "step (ASetFailpoint b) k = set_failpoint b k"

text \<open>
  An execution is a list of steps, each enabled where it is taken; it gives what each step
  left its thread with, and the last state.
\<close>

fun exec :: "action list \<Rightarrow> system \<Rightarrow> (ret list \<times> system) option" where
  "exec [] k = Some ([], k)"
| "exec (a # as) k =
     (case step a k of
        None \<Rightarrow> None
      | Some (r, k') \<Rightarrow>
          (case exec as k' of None \<Rightarrow> None | Some (rs, k'') \<Rightarrow> Some (r # rs, k'')))"

subsection \<open>Scenario data\<close>

definition close_results_ok :: "resource \<Rightarrow> facade_error option" where
  "close_results_ok r = None"

definition close_results_failing :: "resource \<Rightarrow> facade_error option" where
  "close_results_failing r = Some (ErrFacade ''broker not available'')"

text \<open>A state in which \<open>Flush\<close> waits on channel 0 for one message, after \<open>stop\<close> has run.\<close>

definition flush_waiting_closed :: system where
  "flush_waiting_closed =
     (NewKafkaSaramaProducer False)
       \<lparr>inflight := 1, flushDone := Some 0, closeCh := True, closing := kafkaProducerClosing,
        chanMade := 1, sender := FlushWaiting 0\<rparr>"

subsection \<open>Invariants of the executions\<close>

text \<open>
  The counter against the history: \<open>inflight\<close> is the number of counted calls minus the
  acknowledgments consumed (as \<open>int64\<close>); the async producer reports only what it was
  handed; a message is handed over only after it was counted; every call was dropped at
  the closing check, answered by the failpoint, or counted (or has just passed the closing
  check).
\<close>

definition counting_inv :: "system \<Rightarrow> bool" where
  "counting_inv k \<longleftrightarrow>
     inflight k = word_of_nat (sendCounted k) - word_of_nat (acksConsumed k) \<and>
     acksConsumed k + accepted k \<le> handedOver k \<and>
     handedOver k + (if sender k = SendCounted then 1 else 0) \<le> sendCounted k \<and>
     sendCalls k = sendDropped k + sendInjected k + sendCounted k
                   + (if sender k = SendChecked then 1 else 0)"

text \<open>
  The channel of a waiting \<open>Flush\<close>: a registered channel is empty; a waiting \<open>Flush\<close> is
  either still registered, or it was notified when \<open>inflight\<close> reached 0, which it still is.
\<close>

definition flush_inv :: "system \<Rightarrow> bool" where
  "flush_inv k \<longleftrightarrow>
     (\<forall>d. flushDone k = Some d \<longrightarrow> chanBuf k d = 0) \<and>
     (\<forall>c. sender k = FlushWaiting c \<longrightarrow>
        flushDone k = Some c \<or> (flushDone k = None \<and> inflight k = 0))"

text \<open>
  Shutdown: the flag went to closing once if it is closing and never otherwise; the winner
  of the swap closes \<open>closeCh\<close>, once; \<open>Close\<close> gets past \<open>stop\<close> only when the flag is
  closing; the resources are released all four in order, or not at all.
\<close>

definition shutdown_inv :: "system \<Rightarrow> bool" where
  "shutdown_inv k \<longleftrightarrow>
     transitions k = (if closing k = kafkaProducerClosing then 1 else 0) \<and>
     closeChCloses k + closersInStop k + (case runLoop k of RunClosingCh r \<Rightarrow> 1 | _ \<Rightarrow> 0)
       = transitions k \<and>
     closeCh k = (closeChCloses k = 1) \<and>
     (0 < stopCalls k) = (closing k = kafkaProducerClosing) \<and>
     (producersReleased k \<or> 0 < closersAtLock k \<longrightarrow> closing k = kafkaProducerClosing) \<and>
     producersReleased k = (released k \<noteq> []) \<and>
     (released k = [] \<or> map fst (released k) = [Client, AsyncProducer, SyncProducer, AdminClient])"

text \<open>What was closed in \<open>k0\<close> is closed in \<open>k\<close>.\<close>

definition still_closed :: "system \<Rightarrow> system \<Rightarrow> bool" where
  "still_closed k0 k \<longleftrightarrow>
     (closing k0 = kafkaProducerClosing \<longrightarrow> closing k = kafkaProducerClosing) \<and>
     (closeCh k0 \<longrightarrow> closeCh k)"

section \<open>The relay configuration\<close>

record DBConfig =
  Host :: string
  User :: string
  Password :: string
  Port :: int

record Config =
  EnableGTID :: bool
  AutoFixGTID :: bool
  MetaFile :: string
  RelayDir :: string
  ServerID :: int
  Flavor :: string
  Charset :: string
  VerifyChecksum :: bool
  From :: DBConfig

text \<open>
  What \<open>json.Marshal\<close> sees of a value by reflection: a struct is the list of its fields in
  the order of declaration, each with the name of its \<open>json\<close> tag.
\<close>

datatype go_value =
    GoBool bool
  | GoInt int
  | GoString string
  | GoStruct "(string \<times> go_value) list"

definition DBConfig_fields :: "DBConfig \<Rightarrow> (string \<times> go_value) list" where
  "DBConfig_fields c =
     [(''host'', GoString (Host c)), (''user'', GoString (User c)),
      (''-'', GoString (Password c)), (''port'', GoInt (Port c))]"

definition Config_fields :: "Config \<Rightarrow> (string \<times> go_value) list" where
  "Config_fields c =
     [(''enable-gtid'', GoBool (EnableGTID c)), (''auto-fix-gtid'', GoBool (AutoFixGTID c)),
      (''meta-file'', GoString (MetaFile c)), (''relay-dir'', GoString (RelayDir c)),
      (''server-id'', GoInt (ServerID c)), (''flavor'', GoString (Flavor c)),
      (''charset'', GoString (Charset c)), (''verify-checksum'', GoBool (VerifyChecksum c)),
      (''data-source'', GoStruct (DBConfig_fields (From c)))]"

definition hex_digit :: "nat \<Rightarrow> char" where
  "hex_digit n = (''0123456789abcdef'' ! (n mod 16))"

definition digit_char :: "nat \<Rightarrow> char" where
  "digit_char n = (''0123456789'' ! (n mod 10))"

fun decimal :: "nat \<Rightarrow> string" where
  "decimal n = (if n < 10 then [digit_char n] else decimal (n div 10) @ [digit_char n])"

declare decimal.simps [simp del]

definition FormatInt :: "int \<Rightarrow> string" where
  "FormatInt i = (if i < 0 then CHR ''-'' # decimal (nat (- i)) else decimal (nat i))"

text \<open>
  The string encoder of \<open>encoding/json\<close> (with its default escaping of \<open><\<close>, \<open>>\<close> and
  \<open>&\<close>), byte by byte on ASCII; a byte from \<open>0x80\<close> on is copied, which is what the
  encoder does inside valid UTF-8 other than U+2028 and U+2029. (Later releases of Go have
  two-character escapes for the bytes 8 and 12 as well; here they get the six-character one.)
\<close>

definition encode_byte :: "char \<Rightarrow> string" where
  "encode_byte c =
     (let b = (of_char c :: nat) in
      if c = CHR 0x22 then [CHR 0x5C, CHR 0x22]
      else if c = CHR 0x5C then [CHR 0x5C, CHR 0x5C]
      else if b = 10 then [CHR 0x5C, CHR ''n'']
      else if b = 13 then [CHR 0x5C, CHR ''r'']
      else if b = 9 then [CHR 0x5C, CHR ''t'']
      else if b < 32 \<or> c = CHR ''<'' \<or> c = CHR ''>'' \<or> c = CHR ''&''
      then [CHR 0x5C, CHR ''u'', CHR ''0'', CHR ''0'', hex_digit (b div 16), hex_digit b]
      else [c])"

definition encodeString :: "string \<Rightarrow> string" where
  "encodeString s = [CHR 0x22] @ concat (map encode_byte s) @ [CHR 0x22]"

fun join :: "string \<Rightarrow> string list \<Rightarrow> string" where
  "join sep [] = []"
| "join sep [x] = x"
| "join sep (x # y # ys) = x @ sep @ join sep (y # ys)"

text \<open>A field whose tag is \<open>-\<close> is left out.\<close>

fun marshal :: "go_value \<Rightarrow> string"
  and marshal_fields :: "(string \<times> go_value) list \<Rightarrow> string list" where
  "marshal (GoBool b) = (if b then ''true'' else ''false'')"
| "marshal (GoInt i) = FormatInt i"
| "marshal (GoString s) = encodeString s"
| "marshal (GoStruct fs) = ''{'' @ join '','' (marshal_fields fs) @ ''}''"
| "marshal_fields [] = []"
| "marshal_fields ((tag, v) # fs) =
     (if tag = ''-'' then marshal_fields fs
      else (encodeString tag @ '':'' @ marshal v) # marshal_fields fs)"

text \<open>
  \<open>Config.String\<close>. \<open>json.Marshal\<close> has no error for a struct of booleans, integers and
  strings, so the branch that logs one is never taken.
\<close>

definition String :: "Config \<Rightarrow> string" where
  "String c = marshal (GoStruct (Config_fields c))"

definition scenario_config :: "string \<Rightarrow> Config" where
  "scenario_config password =
     \<lparr>EnableGTID = True, AutoFixGTID = False, MetaFile = ''relay.meta'', RelayDir = ''./relay'',
      ServerID = 101, Flavor = ''mysql'', Charset = ''utf8'', VerifyChecksum = False,
      From = \<lparr>Host = ''127.0.0.1'', User = ''root'', Password = password, Port = 3306\<rparr>\<rparr>"

section \<open>Properties of \<open>AdjustOptions\<close>\<close>

lemma getter_applicable:
  "snd (minInsyncReplicasConfigGetter admin topics topic) =
     applicableMinInsyncReplicas admin topics topic"
  by (simp add: minInsyncReplicasConfigGetter_def applicableMinInsyncReplicas_def
      getTopicConfig_def split: option.splits)

lemma Atoi_not_invalid_config: "Atoi s \<noteq> Inl (ErrKafkaInvalidConfig c)"
  by (auto simp: Atoi_def Let_def split: list.splits option.splits)

lemma validate_invalid_iff:
  "(\<exists>configFrom. validateMinInsyncReplicas admin topics topic rf =
        Some (ErrKafkaInvalidConfig configFrom)) \<longleftrightarrow>
   (\<exists>s m. applicableMinInsyncReplicas admin topics topic = Inr s \<and> Atoi s = Inr m \<and> rf < m)"
proof -
  obtain ex r where g: "minInsyncReplicasConfigGetter admin topics topic = (ex, r)"
    by (cases "minInsyncReplicasConfigGetter admin topics topic")
  then have r: "applicableMinInsyncReplicas admin topics topic = r"
    using getter_applicable [of admin topics topic] by simp
  show ?thesis
    unfolding validateMinInsyncReplicas_def g r
    using Atoi_not_invalid_config by (cases r) (auto simp: Let_def split: sum.splits)
qed

lemma validate_not_found:
  assumes "applicableMinInsyncReplicas admin topics topic = Inl ErrKafkaBrokerConfigNotFound"
  shows "validateMinInsyncReplicas admin topics topic rf = None"
proof -
  obtain ex r where g: "minInsyncReplicasConfigGetter admin topics topic = (ex, r)"
    by (cases "minInsyncReplicasConfigGetter admin topics topic")
  then have "r = Inl ErrKafkaBrokerConfigNotFound"
    using getter_applicable [of admin topics topic] assms by simp
  then show ?thesis
    by (simp add: validateMinInsyncReplicas_def g)
qed

lemma AdjustOptions_after_validation:
  "GetAllTopicsMeta admin = Inr topics \<Longrightarrow>
   validateMinInsyncReplicas admin topics topic (ReplicationFactor options) = None \<Longrightarrow>
   AdjustOptions admin options topic \<noteq> Inl (ErrKafkaInvalidConfig c)"
  using Atoi_not_invalid_config
  by (auto simp: AdjustOptions_def SetPartitionNum_def Let_def split: option.splits sum.splits)

lemma AdjustOptions_validation_error:
  "GetAllTopicsMeta admin = Inr topics \<Longrightarrow>
   validateMinInsyncReplicas admin topics topic (ReplicationFactor options) = Some e \<Longrightarrow>
   AdjustOptions admin options topic = Inl e"
  by (simp add: AdjustOptions_def)

lemmas scenario_defs =
  scenario_admin_def scenario_options_def validateMinInsyncReplicas_def
  minInsyncReplicasConfigGetter_def getTopicConfig_def
  Atoi_def digit_of_def TopicMaxMessageBytesConfigName_def BrokerMessageMaxBytesConfigName_def
  MinInsyncReplicasConfigName_def

text \<open>
  C3. \<open>AdjustOptions\<close> fails with the configuration-invalid error exactly when the topics
  were fetched and the applicable \<open>min.insync.replicas\<close> (the topic's entry if the topic
  exists and carries it, otherwise the broker's value) is a number greater than
  \<open>options.ReplicationFactor\<close>; and when the lookup of that value answers
  \<open>ErrKafkaBrokerConfigNotFound\<close>, the validation passes with no error.
\<close>

theorem AdjustOptions_min_insync_replicas:
  "((\<exists>configFrom. AdjustOptions admin options topic = Inl (ErrKafkaInvalidConfig configFrom)) \<longleftrightarrow>
    (\<exists>topics s m. GetAllTopicsMeta admin = Inr topics \<and>
        applicableMinInsyncReplicas admin topics topic = Inr s \<and> Atoi s = Inr m \<and>
        ReplicationFactor options < m))
   \<and> (\<forall>topics. applicableMinInsyncReplicas admin topics topic = Inl ErrKafkaBrokerConfigNotFound \<longrightarrow>
         validateMinInsyncReplicas admin topics topic (ReplicationFactor options) = None)"
proof (intro conjI iffI allI impI)
  assume "\<exists>configFrom. AdjustOptions admin options topic = Inl (ErrKafkaInvalidConfig configFrom)"
  then obtain c where c: "AdjustOptions admin options topic = Inl (ErrKafkaInvalidConfig c)" ..
  then obtain topics where t: "GetAllTopicsMeta admin = Inr topics"
    by (cases "GetAllTopicsMeta admin") (auto simp: AdjustOptions_def)
  show "\<exists>topics s m. GetAllTopicsMeta admin = Inr topics \<and>
        applicableMinInsyncReplicas admin topics topic = Inr s \<and> Atoi s = Inr m \<and>
        ReplicationFactor options < m"
  proof (cases "validateMinInsyncReplicas admin topics topic (ReplicationFactor options)")
    case None
    with t c AdjustOptions_after_validation show ?thesis by blast
  next
    case (Some e)
    with t c have "e = ErrKafkaInvalidConfig c"
      by (simp add: AdjustOptions_validation_error)
    with Some validate_invalid_iff [of admin topics topic "ReplicationFactor options"] t
    show ?thesis by blast
  qed
next
  assume "\<exists>topics s m. GetAllTopicsMeta admin = Inr topics \<and>
        applicableMinInsyncReplicas admin topics topic = Inr s \<and> Atoi s = Inr m \<and>
        ReplicationFactor options < m"
  then obtain topics s m where t: "GetAllTopicsMeta admin = Inr topics"
    and a: "applicableMinInsyncReplicas admin topics topic = Inr s" "Atoi s = Inr m"
      "ReplicationFactor options < m" by blast
  from a validate_invalid_iff [of admin topics topic "ReplicationFactor options"]
  obtain c where "validateMinInsyncReplicas admin topics topic (ReplicationFactor options)
      = Some (ErrKafkaInvalidConfig c)" by blast
  with t show "\<exists>configFrom. AdjustOptions admin options topic = Inl (ErrKafkaInvalidConfig configFrom)"
    by (auto simp: AdjustOptions_validation_error)
next
  fix topics
  assume "applicableMinInsyncReplicas admin topics topic = Inl ErrKafkaBrokerConfigNotFound"
  then show "validateMinInsyncReplicas admin topics topic (ReplicationFactor options) = None"
    by (rule validate_not_found)
qed

text \<open>
  The scenario of the spec: replication factor 1 and a topic-level \<open>min.insync.replicas\<close>
  of 2 fail; and a broker that hides \<open>min.insync.replicas\<close> passes the validation.
\<close>

theorem AdjustOptions_min_insync_replicas_witness:
  "(\<exists>configFrom.
      AdjustOptions
        (scenario_admin
           [''t'' \<mapsto> \<lparr>NumPartitions = 1, ConfigEntries = [''min.insync.replicas'' \<mapsto> ''2'']\<rparr>]
           Map.empty)
        scenario_options ''t'' = Inl (ErrKafkaInvalidConfig configFrom))
   \<and> validateMinInsyncReplicas (scenario_admin Map.empty Map.empty) Map.empty ''t''
         (ReplicationFactor scenario_options) = None"
proof
  let ?topics = "[''t'' \<mapsto> \<lparr>NumPartitions = 1, ConfigEntries = [''min.insync.replicas'' \<mapsto> ''2'']\<rparr>]"
  let ?admin = "scenario_admin ?topics Map.empty"
  have "GetAllTopicsMeta ?admin = Inr ?topics \<and>
        applicableMinInsyncReplicas ?admin ?topics ''t'' = Inr ''2'' \<and> Atoi ''2'' = Inr 2 \<and>
        ReplicationFactor scenario_options < 2"
    by (simp add: scenario_defs applicableMinInsyncReplicas_def)
  then show "\<exists>configFrom. AdjustOptions ?admin scenario_options ''t'' =
      Inl (ErrKafkaInvalidConfig configFrom)"
    using AdjustOptions_min_insync_replicas [of ?admin scenario_options "''t''"] by blast
next
  have "applicableMinInsyncReplicas (scenario_admin Map.empty Map.empty) Map.empty ''t'' =
          Inl ErrKafkaBrokerConfigNotFound"
    by (simp add: scenario_admin_def applicableMinInsyncReplicas_def)
  then show "validateMinInsyncReplicas (scenario_admin Map.empty Map.empty) Map.empty ''t''
         (ReplicationFactor scenario_options) = None"
    using AdjustOptions_min_insync_replicas
      [of "scenario_admin Map.empty Map.empty" scenario_options "''t''"] by blast
qed

lemma getTopicConfig_effective:
  "getTopicConfig admin info TopicMaxMessageBytesConfigName BrokerMessageMaxBytesConfigName =
     effectiveMaxMessageBytes admin info"
  by (simp add: getTopicConfig_def effectiveMaxMessageBytes_def
      TopicMaxMessageBytesConfigName_def BrokerMessageMaxBytesConfigName_def)

text \<open>
  C4. When the topic exists in the fetched metadata, the validation of
  \<open>min.insync.replicas\<close> passes, and the topic's effective \<open>max.message.bytes\<close> (the topic's
  entry \<open>max.message.bytes\<close> if it carries one, otherwise what the broker answers for
  \<open>message.max.bytes\<close>) is the number \<open>n\<close>, \<open>AdjustOptions\<close> returns no error, with
  \<open>MaxMessageBytes\<close> the smaller of the configured value and \<open>n\<close>, and with \<open>PartitionNum\<close>
  the partition count of the topic.
\<close>

theorem AdjustOptions_topic_exists:
  assumes "GetAllTopicsMeta admin = Inr topics" and "topics topic = Some info"
    and "validateMinInsyncReplicas admin topics topic (ReplicationFactor options) = None"
    and "effectiveMaxMessageBytes admin info = Inr s"
    and "Atoi s = Inr n"
  shows "AdjustOptions admin options topic =
           Inr (options\<lparr>MaxMessageBytes := min (MaxMessageBytes options) n,
                        PartitionNum := NumPartitions info\<rparr>)"
  using assms
  by (simp add: AdjustOptions_def getTopicConfig_effective SetPartitionNum_def min_def)

text \<open>
  The scenario of the spec: the topic has \<open>max.message.bytes = 900\<close> (and the broker another
  \<open>message.max.bytes\<close>) and the configured value is 1000; the result has 900. And a topic
  without the entry, on a broker with \<open>message.max.bytes = 800\<close>: the result has 800.
\<close>

theorem AdjustOptions_topic_exists_witness:
  "AdjustOptions
     (scenario_admin
        [''t'' \<mapsto> \<lparr>NumPartitions = 5, ConfigEntries = [''max.message.bytes'' \<mapsto> ''900'']\<rparr>]
        [''min.insync.replicas'' \<mapsto> ''1'', ''message.max.bytes'' \<mapsto> ''5000''])
     scenario_options ''t''
   = Inr (scenario_options\<lparr>MaxMessageBytes := 900, PartitionNum := 5\<rparr>)
   \<and> AdjustOptions
     (scenario_admin
        [''t'' \<mapsto> \<lparr>NumPartitions = 7, ConfigEntries = Map.empty\<rparr>]
        [''min.insync.replicas'' \<mapsto> ''1'', ''message.max.bytes'' \<mapsto> ''800''])
     scenario_options ''t''
   = Inr (scenario_options\<lparr>MaxMessageBytes := 800, PartitionNum := 7\<rparr>)"
proof
  let ?info = "\<lparr>NumPartitions = 5, ConfigEntries = [''max.message.bytes'' \<mapsto> ''900'']\<rparr>"
  let ?topics = "[''t'' \<mapsto> ?info]"
  let ?admin = "scenario_admin ?topics
                  [''min.insync.replicas'' \<mapsto> ''1'', ''message.max.bytes'' \<mapsto> ''5000'']"
  have 1: "GetAllTopicsMeta ?admin = Inr ?topics"
    by (simp add: scenario_admin_def)
  have 2: "?topics ''t'' = Some ?info"
    by simp
  have 3: "validateMinInsyncReplicas ?admin ?topics ''t'' (ReplicationFactor scenario_options)
            = None"
    by (simp add: scenario_defs)
  have 4: "effectiveMaxMessageBytes ?admin ?info = Inr ''900''"
    by (simp add: effectiveMaxMessageBytes_def)
  have 5: "Atoi ''900'' = Inr 900"
    by (simp add: Atoi_def digit_of_def)
  show "AdjustOptions ?admin scenario_options ''t''
      = Inr (scenario_options\<lparr>MaxMessageBytes := 900, PartitionNum := 5\<rparr>)"
    using AdjustOptions_topic_exists [OF 1 2 3 4 5] by (simp add: scenario_options_def)
next
  let ?info = "\<lparr>NumPartitions = 7, ConfigEntries = (Map.empty :: string \<rightharpoonup> string)\<rparr>"
  let ?topics = "[''t'' \<mapsto> ?info]"
  let ?admin = "scenario_admin ?topics
                  [''min.insync.replicas'' \<mapsto> ''1'', ''message.max.bytes'' \<mapsto> ''800'']"
  have 1: "GetAllTopicsMeta ?admin = Inr ?topics"
    by (simp add: scenario_admin_def)
  have 2: "?topics ''t'' = Some ?info"
    by simp
  have 3: "validateMinInsyncReplicas ?admin ?topics ''t'' (ReplicationFactor scenario_options)
            = None"
    by (simp add: scenario_defs)
  have 4: "effectiveMaxMessageBytes ?admin ?info = Inr ''800''"
    by (simp add: effectiveMaxMessageBytes_def scenario_admin_def)
  have 5: "Atoi ''800'' = Inr 800"
    by (simp add: Atoi_def digit_of_def)
  show "AdjustOptions ?admin scenario_options ''t''
      = Inr (scenario_options\<lparr>MaxMessageBytes := 800, PartitionNum := 7\<rparr>)"
    using AdjustOptions_topic_exists [OF 1 2 3 4 5] by (simp add: scenario_options_def)
qed

text \<open>
  C5. When the topic does not exist in the fetched metadata, the validation of
  \<open>min.insync.replicas\<close> passes, and the broker's \<open>message.max.bytes\<close> is the number \<open>n\<close>,
  \<open>AdjustOptions\<close> returns no error, with \<open>MaxMessageBytes\<close> the smaller of the configured
  value and \<open>n\<close>, and with \<open>PartitionNum\<close> the default partition count 3 if it was 0
  (and as it was otherwise).
\<close>

theorem AdjustOptions_topic_missing:
  assumes "GetAllTopicsMeta admin = Inr topics" and "topics topic = None"
    and "validateMinInsyncReplicas admin topics topic (ReplicationFactor options) = None"
    and "GetBrokerConfig admin BrokerMessageMaxBytesConfigName = Inr s"
    and "Atoi s = Inr n"
  shows "AdjustOptions admin options topic =
           Inr (options\<lparr>MaxMessageBytes := min (MaxMessageBytes options) n,
                        PartitionNum := (if PartitionNum options = 0 then defaultPartitionNum
                                         else PartitionNum options)\<rparr>)
         \<and> defaultPartitionNum = 3"
  using assms by (simp add: AdjustOptions_def defaultPartitionNum_def min_def)

text \<open>
  The scenario of the spec: no topic, the broker has \<open>message.max.bytes = 500\<close>, the
  configured value is 1000 and the partition count is 0; the result has 500 and 3.
\<close>

theorem AdjustOptions_topic_missing_witness:
  "AdjustOptions
     (scenario_admin Map.empty [''message.max.bytes'' \<mapsto> ''500'', ''min.insync.replicas'' \<mapsto> ''1''])
     scenario_options ''t''
   = Inr (scenario_options\<lparr>MaxMessageBytes := 500, PartitionNum := 3\<rparr>)"
proof -
  let ?admin = "scenario_admin Map.empty
                  [''message.max.bytes'' \<mapsto> ''500'', ''min.insync.replicas'' \<mapsto> ''1'']"
  have 1: "GetAllTopicsMeta ?admin = Inr Map.empty"
    by (simp add: scenario_admin_def)
  have 2: "(Map.empty :: string \<rightharpoonup> TopicDetail) ''t'' = None"
    by simp
  have 3: "validateMinInsyncReplicas ?admin Map.empty ''t'' (ReplicationFactor scenario_options)
            = None"
    by (simp add: scenario_defs)
  have 4: "GetBrokerConfig ?admin BrokerMessageMaxBytesConfigName = Inr ''500''"
    by (simp add: scenario_defs)
  have 5: "Atoi ''500'' = Inr 500"
    by (simp add: Atoi_def digit_of_def)
  show ?thesis
    using AdjustOptions_topic_missing [OF 1 2 3 4 5] by (simp add: scenario_options_def)
qed

section \<open>Properties of the producer\<close>

subsection \<open>Every step keeps the invariants\<close>

lemma not_running_iff [simp]:
  "(x \<noteq> kafkaProducerRunning) = (x = kafkaProducerClosing)"
  by (cases x) simp_all

lemma word_of_nat_eq_64:
  assumes "a \<le> s" and "s < 2 ^ 64"
  shows "((word_of_nat s :: int64) = word_of_nat a) = (s = a)"
  using assms by (simp add: word_of_nat_eq_iff take_bit_nat_eq_self)

lemma sint_word_of_nat_diff_64:
  assumes "a \<le> s" and "s < 2 ^ 63"
  shows "sint (word_of_nat s - word_of_nat a :: int64) = int s - int a"
proof -
  have "(word_of_nat s - word_of_nat a :: int64) = word_of_nat (s - a)"
    using assms(1) by (simp add: of_nat_diff)
  moreover have "sint (word_of_nat (s - a) :: int64) = signed_take_bit 63 (int (s - a))"
    by (simp add: signed_of_nat)
  moreover have "signed_take_bit 63 (int (s - a)) = int (s - a)"
    using assms by (intro signed_take_bit_int_eq_self) auto
  ultimately show ?thesis
    using assms(1) by simp
qed

text \<open>
  While fewer than \<open>2 ^ 64\<close> calls have been counted, the counter is 0 only when every
  counted call is acknowledged; so it is not 0 while the async producer has a message.
\<close>

lemma inflight_zero_iff:
  assumes "counting_inv k" and "sendCounted k < 2 ^ 64"
  shows "(inflight k = 0) = (acksConsumed k = sendCounted k)"
proof -
  from assms(1) have i: "inflight k = word_of_nat (sendCounted k) - word_of_nat (acksConsumed k)"
    and le: "acksConsumed k \<le> sendCounted k"
    by (auto simp: counting_inv_def split: if_splits)
  from le assms(2) show ?thesis
    unfolding i using word_of_nat_eq_64 [of "acksConsumed k" "sendCounted k"] by auto
qed

lemma inflight_nonzero:
  assumes "counting_inv k" and "sendCounted k < 2 ^ 64" and "0 < accepted k"
  shows "inflight k \<noteq> 0"
proof -
  from assms(1,3) have "acksConsumed k \<noteq> sendCounted k"
    by (auto simp: counting_inv_def split: if_splits)
  with assms(1,2) show ?thesis
    by (simp add: inflight_zero_iff)
qed

lemma shutdown_inv_SendEnter:
  "shutdown_inv k \<Longrightarrow> step (ASendEnter) k = Some (r, k') \<Longrightarrow> shutdown_inv k'"
  by (clarsimp simp: shutdown_inv_def AsyncSendMessage_enter_def split: if_splits)

lemma shutdown_inv_SendFailpoint:
  "shutdown_inv k \<Longrightarrow> step (ASendFailpoint) k = Some (r, k') \<Longrightarrow> shutdown_inv k'"
  by (clarsimp simp: shutdown_inv_def AsyncSendMessage_failpoint_def split: if_splits)

lemma shutdown_inv_SendCount:
  "shutdown_inv k \<Longrightarrow> step (ASendCount) k = Some (r, k') \<Longrightarrow> shutdown_inv k'"
  by (clarsimp simp: shutdown_inv_def AsyncSendMessage_count_def split: if_splits)

lemma shutdown_inv_SendSelect:
  "shutdown_inv k \<Longrightarrow> step (ASendSelect ctx c) k = Some (r, k') \<Longrightarrow> shutdown_inv k'"
  by (clarsimp simp: shutdown_inv_def AsyncSendMessage_select_def
      split: if_splits send_case.splits option.splits)

lemma shutdown_inv_SyncBroadcast:
  "shutdown_inv k \<Longrightarrow> step (ASyncBroadcast ctx sm c) k = Some (r, k') \<Longrightarrow> shutdown_inv k'"
  by (clarsimp simp: shutdown_inv_def SyncBroadcastMessage_def
      split: if_splits sync_case.splits option.splits)

lemma shutdown_inv_FlushEnter:
  "shutdown_inv k \<Longrightarrow> step (AFlushEnter) k = Some (r, k') \<Longrightarrow> shutdown_inv k'"
  by (clarsimp simp: shutdown_inv_def Flush_enter_def Let_def split: if_splits)

lemma shutdown_inv_FlushSelect:
  "shutdown_inv k \<Longrightarrow> step (AFlushSelect ctx c) k = Some (r, k') \<Longrightarrow> shutdown_inv k'"
  by (clarsimp simp: shutdown_inv_def Flush_select_def
      split: if_splits sender_pc.splits flush_case.splits option.splits)

lemma shutdown_inv_RunDeferSwap:
  "shutdown_inv k \<Longrightarrow> step (ARunDeferSwap) k = Some (r, k') \<Longrightarrow> shutdown_inv k'"
  by (clarsimp simp: shutdown_inv_def run_defer_swap_def swap_closing_def
      split: if_splits run_pc.splits)

lemma shutdown_inv_RunDeferCloseCh:
  "shutdown_inv k \<Longrightarrow> step (ARunDeferCloseCh) k = Some (r, k') \<Longrightarrow> shutdown_inv k'"
  by (clarsimp simp: shutdown_inv_def run_defer_closeCh_def close_closeCh_def
      split: if_splits run_pc.splits)

lemma shutdown_inv_CloseSwap:
  "shutdown_inv k \<Longrightarrow> step (ACloseSwap) k = Some (r, k') \<Longrightarrow> shutdown_inv k'"
  by (clarsimp simp: shutdown_inv_def Close_swap_def swap_closing_def split: if_splits)

lemma shutdown_inv_CloseCloseCh:
  "shutdown_inv k \<Longrightarrow> step (ACloseCloseCh) k = Some (r, k') \<Longrightarrow> shutdown_inv k'"
  by (clarsimp simp: shutdown_inv_def Close_closeCh_def close_closeCh_def split: if_splits)

lemma shutdown_inv_CloseRelease:
  "shutdown_inv k \<Longrightarrow> step (ACloseRelease res) k = Some (r, k') \<Longrightarrow> shutdown_inv k'"
  by (clarsimp simp: shutdown_inv_def Close_release_def Close_locked_def close_resource_def Let_def
      split: if_splits)

lemma shutdown_inv_SetFailpoint:
  "shutdown_inv k \<Longrightarrow> step (ASetFailpoint b) k = Some (r, k') \<Longrightarrow> shutdown_inv k'"
  by (clarsimp simp: shutdown_inv_def set_failpoint_def split: if_splits)

lemma shutdown_inv_RunSelect:
  assumes "shutdown_inv k"
    and "step (ARunSelect ctx c) k = Some (r, k')"
  shows "shutdown_inv k'"
proof (cases c)
  case RunCtxDone
  with assms show ?thesis
    by (clarsimp simp: shutdown_inv_def run_select_def split: if_splits option.splits)
next
  case RunCloseCh
  with assms show ?thesis
    by (clarsimp simp: shutdown_inv_def run_select_def split: if_splits)
next
  case RunFailpoint
  with assms show ?thesis
    by (clarsimp simp: shutdown_inv_def run_select_def split: if_splits list.splits)
next
  case (RunSuccesses b)
  with assms show ?thesis
    by (cases b)
      (clarsimp simp: shutdown_inv_def run_select_def ack_received_def Let_def
        split: if_splits option.splits)+
next
  case (RunErrors e)
  with assms show ?thesis
    by (cases e) (clarsimp simp: shutdown_inv_def run_select_def split: if_splits)+
qed

lemma shutdown_inv_step:
  "shutdown_inv k \<Longrightarrow> step a k = Some (r, k') \<Longrightarrow> shutdown_inv k'"
  by (cases a)
    (blast intro: shutdown_inv_SendEnter shutdown_inv_SendFailpoint shutdown_inv_SendCount
      shutdown_inv_SendSelect shutdown_inv_SyncBroadcast shutdown_inv_FlushEnter
      shutdown_inv_FlushSelect shutdown_inv_RunSelect shutdown_inv_RunDeferSwap
      shutdown_inv_RunDeferCloseCh shutdown_inv_CloseSwap shutdown_inv_CloseCloseCh
      shutdown_inv_CloseRelease shutdown_inv_SetFailpoint)+

lemma counting_inv_SendEnter:
  "counting_inv k \<Longrightarrow> step (ASendEnter) k = Some (r, k') \<Longrightarrow> counting_inv k'"
  by (clarsimp simp: counting_inv_def AsyncSendMessage_enter_def split: if_splits)

lemma counting_inv_SendFailpoint:
  "counting_inv k \<Longrightarrow> step (ASendFailpoint) k = Some (r, k') \<Longrightarrow> counting_inv k'"
  by (clarsimp simp: counting_inv_def AsyncSendMessage_failpoint_def split: if_splits)

lemma counting_inv_SendCount:
  "counting_inv k \<Longrightarrow> step (ASendCount) k = Some (r, k') \<Longrightarrow> counting_inv k'"
  by (clarsimp simp: counting_inv_def AsyncSendMessage_count_def split: if_splits)

lemma counting_inv_SendSelect:
  "counting_inv k \<Longrightarrow> step (ASendSelect ctx c) k = Some (r, k') \<Longrightarrow> counting_inv k'"
  by (clarsimp simp: counting_inv_def AsyncSendMessage_select_def
      split: if_splits send_case.splits option.splits)

lemma counting_inv_SyncBroadcast:
  "counting_inv k \<Longrightarrow> step (ASyncBroadcast ctx sm c) k = Some (r, k') \<Longrightarrow> counting_inv k'"
  by (clarsimp simp: counting_inv_def SyncBroadcastMessage_def
      split: if_splits sync_case.splits option.splits)

lemma counting_inv_FlushEnter:
  "counting_inv k \<Longrightarrow> step (AFlushEnter) k = Some (r, k') \<Longrightarrow> counting_inv k'"
  by (clarsimp simp: counting_inv_def Flush_enter_def Let_def split: if_splits)

lemma counting_inv_FlushSelect:
  "counting_inv k \<Longrightarrow> step (AFlushSelect ctx c) k = Some (r, k') \<Longrightarrow> counting_inv k'"
  by (clarsimp simp: counting_inv_def Flush_select_def
      split: if_splits sender_pc.splits flush_case.splits option.splits)

lemma counting_inv_RunDeferSwap:
  "counting_inv k \<Longrightarrow> step (ARunDeferSwap) k = Some (r, k') \<Longrightarrow> counting_inv k'"
  by (clarsimp simp: counting_inv_def run_defer_swap_def swap_closing_def
      split: if_splits run_pc.splits)

lemma counting_inv_RunDeferCloseCh:
  "counting_inv k \<Longrightarrow> step (ARunDeferCloseCh) k = Some (r, k') \<Longrightarrow> counting_inv k'"
  by (clarsimp simp: counting_inv_def run_defer_closeCh_def close_closeCh_def
      split: if_splits run_pc.splits)

lemma counting_inv_CloseSwap:
  "counting_inv k \<Longrightarrow> step (ACloseSwap) k = Some (r, k') \<Longrightarrow> counting_inv k'"
  by (clarsimp simp: counting_inv_def Close_swap_def swap_closing_def split: if_splits)

lemma counting_inv_CloseCloseCh:
  "counting_inv k \<Longrightarrow> step (ACloseCloseCh) k = Some (r, k') \<Longrightarrow> counting_inv k'"
  by (clarsimp simp: counting_inv_def Close_closeCh_def close_closeCh_def split: if_splits)

lemma counting_inv_CloseRelease:
  "counting_inv k \<Longrightarrow> step (ACloseRelease res) k = Some (r, k') \<Longrightarrow> counting_inv k'"
  by (clarsimp simp: counting_inv_def Close_release_def Close_locked_def close_resource_def Let_def
      split: if_splits)

lemma counting_inv_SetFailpoint:
  "counting_inv k \<Longrightarrow> step (ASetFailpoint b) k = Some (r, k') \<Longrightarrow> counting_inv k'"
  by (clarsimp simp: counting_inv_def set_failpoint_def split: if_splits)

lemma counting_inv_ack_received:
  assumes "counting_inv k" and "0 < accepted k"
    and "ack_received (k\<lparr>accepted := accepted k - 1\<rparr>) = Some k'"
  shows "counting_inv k'"
proof -
  from assms(3) have f: "inflight k' = inflight k - 1" "acksConsumed k' = acksConsumed k + 1"
    "accepted k' = accepted k - 1" "sendCounted k' = sendCounted k"
    "handedOver k' = handedOver k" "sender k' = sender k" "sendCalls k' = sendCalls k"
    "sendDropped k' = sendDropped k" "sendInjected k' = sendInjected k"
    by (auto simp: ack_received_def Let_def split: option.splits if_splits)
  from assms(1) have "inflight k = word_of_nat (sendCounted k) - word_of_nat (acksConsumed k)"
    by (simp add: counting_inv_def)
  then have "inflight k' = word_of_nat (sendCounted k') - word_of_nat (acksConsumed k')"
    by (simp add: f)
  moreover from assms(1,2) have "acksConsumed k' + accepted k' \<le> handedOver k'"
    by (simp add: f counting_inv_def)
  moreover from assms(1)
  have "handedOver k' + (if sender k' = SendCounted then 1 else 0) \<le> sendCounted k'"
    by (simp add: f counting_inv_def)
  moreover from assms(1)
  have "sendCalls k' = sendDropped k' + sendInjected k' + sendCounted k'
                   + (if sender k' = SendChecked then 1 else 0)"
    by (simp add: f counting_inv_def)
  ultimately show ?thesis
    unfolding counting_inv_def by blast
qed

lemma counting_inv_RunSelect:
  assumes "counting_inv k" and "step (ARunSelect ctx c) k = Some (r, k')"
  shows "counting_inv k'"
proof (cases c)
  case RunCtxDone
  with assms show ?thesis
    by (clarsimp simp: counting_inv_def run_select_def split: if_splits option.splits)
next
  case RunCloseCh
  with assms show ?thesis
    by (clarsimp simp: counting_inv_def run_select_def split: if_splits)
next
  case RunFailpoint
  with assms show ?thesis
    by (clarsimp simp: counting_inv_def run_select_def split: if_splits list.splits)
next
  case (RunSuccesses b)
  show ?thesis
  proof (cases b)
    case True
    with RunSuccesses assms(2) have "0 < accepted k"
      and "ack_received (k\<lparr>accepted := accepted k - 1\<rparr>) = Some k'"
      by (auto simp: run_select_def split: if_splits option.splits)
    with assms(1) show ?thesis
      by (rule counting_inv_ack_received)
  next
    case False
    with RunSuccesses assms show ?thesis
      by (clarsimp simp: run_select_def split: if_splits)
  qed
next
  case (RunErrors e)
  with assms show ?thesis
    by (cases e) (auto simp: counting_inv_def run_select_def split: if_splits)
qed

lemma counting_inv_step:
  "counting_inv k \<Longrightarrow> step a k = Some (r, k') \<Longrightarrow> counting_inv k'"
  by (cases a)
    (blast intro: counting_inv_SendEnter counting_inv_SendFailpoint counting_inv_SendCount
      counting_inv_SendSelect counting_inv_SyncBroadcast counting_inv_FlushEnter
      counting_inv_FlushSelect counting_inv_RunSelect counting_inv_RunDeferSwap
      counting_inv_RunDeferCloseCh counting_inv_CloseSwap counting_inv_CloseCloseCh
      counting_inv_CloseRelease counting_inv_SetFailpoint)+

lemma flush_inv_SendEnter:
  "flush_inv k \<Longrightarrow> step (ASendEnter) k = Some (r, k') \<Longrightarrow> flush_inv k'"
  by (clarsimp simp: flush_inv_def AsyncSendMessage_enter_def split: if_splits)

lemma flush_inv_SendFailpoint:
  "flush_inv k \<Longrightarrow> step (ASendFailpoint) k = Some (r, k') \<Longrightarrow> flush_inv k'"
  by (clarsimp simp: flush_inv_def AsyncSendMessage_failpoint_def split: if_splits)

lemma flush_inv_SendCount:
  "flush_inv k \<Longrightarrow> step (ASendCount) k = Some (r, k') \<Longrightarrow> flush_inv k'"
  by (clarsimp simp: flush_inv_def AsyncSendMessage_count_def split: if_splits)

lemma flush_inv_SendSelect:
  "flush_inv k \<Longrightarrow> step (ASendSelect ctx c) k = Some (r, k') \<Longrightarrow> flush_inv k'"
  by (clarsimp simp: flush_inv_def AsyncSendMessage_select_def
      split: if_splits send_case.splits option.splits)

lemma flush_inv_SyncBroadcast:
  "flush_inv k \<Longrightarrow> step (ASyncBroadcast ctx sm c) k = Some (r, k') \<Longrightarrow> flush_inv k'"
  by (clarsimp simp: flush_inv_def SyncBroadcastMessage_def
      split: if_splits sync_case.splits option.splits)

lemma flush_inv_FlushEnter:
  "flush_inv k \<Longrightarrow> step (AFlushEnter) k = Some (r, k') \<Longrightarrow> flush_inv k'"
  by (clarsimp simp: flush_inv_def Flush_enter_def Let_def split: if_splits)

lemma flush_inv_FlushSelect:
  "flush_inv k \<Longrightarrow> step (AFlushSelect ctx c) k = Some (r, k') \<Longrightarrow> flush_inv k'"
  by (clarsimp simp: flush_inv_def Flush_select_def
      split: if_splits sender_pc.splits flush_case.splits option.splits)

lemma flush_inv_RunDeferSwap:
  "flush_inv k \<Longrightarrow> step (ARunDeferSwap) k = Some (r, k') \<Longrightarrow> flush_inv k'"
  by (clarsimp simp: flush_inv_def run_defer_swap_def swap_closing_def
      split: if_splits run_pc.splits)

lemma flush_inv_RunDeferCloseCh:
  "flush_inv k \<Longrightarrow> step (ARunDeferCloseCh) k = Some (r, k') \<Longrightarrow> flush_inv k'"
  by (clarsimp simp: flush_inv_def run_defer_closeCh_def close_closeCh_def
      split: if_splits run_pc.splits)

lemma flush_inv_CloseSwap:
  "flush_inv k \<Longrightarrow> step (ACloseSwap) k = Some (r, k') \<Longrightarrow> flush_inv k'"
  by (clarsimp simp: flush_inv_def Close_swap_def swap_closing_def split: if_splits)

lemma flush_inv_CloseCloseCh:
  "flush_inv k \<Longrightarrow> step (ACloseCloseCh) k = Some (r, k') \<Longrightarrow> flush_inv k'"
  by (clarsimp simp: flush_inv_def Close_closeCh_def close_closeCh_def split: if_splits)

lemma flush_inv_CloseRelease:
  "flush_inv k \<Longrightarrow> step (ACloseRelease res) k = Some (r, k') \<Longrightarrow> flush_inv k'"
  by (clarsimp simp: flush_inv_def Close_release_def Close_locked_def close_resource_def Let_def
      split: if_splits)

lemma flush_inv_SetFailpoint:
  "flush_inv k \<Longrightarrow> step (ASetFailpoint b) k = Some (r, k') \<Longrightarrow> flush_inv k'"
  by (clarsimp simp: flush_inv_def set_failpoint_def split: if_splits)

lemma flush_inv_RunSelect:
  assumes "flush_inv k" and "0 < accepted k \<longrightarrow> inflight k \<noteq> 0"
    and "step (ARunSelect ctx c) k = Some (r, k')"
  shows "flush_inv k'"
proof (cases c)
  case RunCtxDone
  with assms show ?thesis
    by (clarsimp simp: flush_inv_def run_select_def split: if_splits option.splits)
next
  case RunCloseCh
  with assms show ?thesis
    by (clarsimp simp: flush_inv_def run_select_def split: if_splits)
next
  case RunFailpoint
  with assms show ?thesis
    by (clarsimp simp: flush_inv_def run_select_def split: if_splits list.splits)
next
  case (RunSuccesses b)
  with assms show ?thesis
    by (cases b)
      (clarsimp simp: flush_inv_def run_select_def ack_received_def Let_def
        split: if_splits option.splits)+
next
  case (RunErrors e)
  with assms show ?thesis
    by (cases e) (clarsimp simp: flush_inv_def run_select_def split: if_splits)+
qed

lemma flush_inv_step:
  assumes "flush_inv k" and "0 < accepted k \<longrightarrow> inflight k \<noteq> 0"
    and "step a k = Some (r, k')"
  shows "flush_inv k'"
proof (cases a)
  case (ARunSelect ctx c)
  with assms(3) have "step (ARunSelect ctx c) k = Some (r, k')"
    by simp
  with assms(1,2) show ?thesis
    by (rule flush_inv_RunSelect)
qed (use assms(1,3) in \<open>blast intro: flush_inv_SendEnter flush_inv_SendFailpoint
      flush_inv_SendCount flush_inv_SendSelect flush_inv_SyncBroadcast flush_inv_FlushEnter
      flush_inv_FlushSelect flush_inv_RunDeferSwap flush_inv_RunDeferCloseCh
      flush_inv_CloseSwap flush_inv_CloseCloseCh flush_inv_CloseRelease
      flush_inv_SetFailpoint\<close>)+

lemma still_closed_SendEnter:
  "still_closed k0 k \<Longrightarrow> step (ASendEnter) k = Some (r, k') \<Longrightarrow> still_closed k0 k'"
  by (clarsimp simp: still_closed_def AsyncSendMessage_enter_def split: if_splits)

lemma still_closed_SendFailpoint:
  "still_closed k0 k \<Longrightarrow> step (ASendFailpoint) k = Some (r, k') \<Longrightarrow> still_closed k0 k'"
  by (clarsimp simp: still_closed_def AsyncSendMessage_failpoint_def split: if_splits)

lemma still_closed_SendCount:
  "still_closed k0 k \<Longrightarrow> step (ASendCount) k = Some (r, k') \<Longrightarrow> still_closed k0 k'"
  by (clarsimp simp: still_closed_def AsyncSendMessage_count_def split: if_splits)

lemma still_closed_SendSelect:
  "still_closed k0 k \<Longrightarrow> step (ASendSelect ctx c) k = Some (r, k') \<Longrightarrow> still_closed k0 k'"
  by (clarsimp simp: still_closed_def AsyncSendMessage_select_def
      split: if_splits send_case.splits option.splits)

lemma still_closed_SyncBroadcast:
  "still_closed k0 k \<Longrightarrow> step (ASyncBroadcast ctx sm c) k = Some (r, k') \<Longrightarrow> still_closed k0 k'"
  by (clarsimp simp: still_closed_def SyncBroadcastMessage_def
      split: if_splits sync_case.splits option.splits)

lemma still_closed_FlushEnter:
  "still_closed k0 k \<Longrightarrow> step (AFlushEnter) k = Some (r, k') \<Longrightarrow> still_closed k0 k'"
  by (clarsimp simp: still_closed_def Flush_enter_def Let_def split: if_splits)

lemma still_closed_FlushSelect:
  "still_closed k0 k \<Longrightarrow> step (AFlushSelect ctx c) k = Some (r, k') \<Longrightarrow> still_closed k0 k'"
  by (clarsimp simp: still_closed_def Flush_select_def
      split: if_splits sender_pc.splits flush_case.splits option.splits)

lemma still_closed_RunDeferSwap:
  "still_closed k0 k \<Longrightarrow> step (ARunDeferSwap) k = Some (r, k') \<Longrightarrow> still_closed k0 k'"
  by (clarsimp simp: still_closed_def run_defer_swap_def swap_closing_def
      split: if_splits run_pc.splits)

lemma still_closed_RunDeferCloseCh:
  "still_closed k0 k \<Longrightarrow> step (ARunDeferCloseCh) k = Some (r, k') \<Longrightarrow> still_closed k0 k'"
  by (clarsimp simp: still_closed_def run_defer_closeCh_def close_closeCh_def
      split: if_splits run_pc.splits)

lemma still_closed_CloseSwap:
  "still_closed k0 k \<Longrightarrow> step (ACloseSwap) k = Some (r, k') \<Longrightarrow> still_closed k0 k'"
  by (clarsimp simp: still_closed_def Close_swap_def swap_closing_def split: if_splits)

lemma still_closed_CloseCloseCh:
  "still_closed k0 k \<Longrightarrow> step (ACloseCloseCh) k = Some (r, k') \<Longrightarrow> still_closed k0 k'"
  by (clarsimp simp: still_closed_def Close_closeCh_def close_closeCh_def split: if_splits)

lemma still_closed_CloseRelease:
  "still_closed k0 k \<Longrightarrow> step (ACloseRelease res) k = Some (r, k') \<Longrightarrow> still_closed k0 k'"
  by (clarsimp simp: still_closed_def Close_release_def Close_locked_def close_resource_def Let_def
      split: if_splits)

lemma still_closed_SetFailpoint:
  "still_closed k0 k \<Longrightarrow> step (ASetFailpoint b) k = Some (r, k') \<Longrightarrow> still_closed k0 k'"
  by (clarsimp simp: still_closed_def set_failpoint_def split: if_splits)

lemma still_closed_RunSelect:
  assumes "still_closed k0 k"
    and "step (ARunSelect ctx c) k = Some (r, k')"
  shows "still_closed k0 k'"
proof (cases c)
  case RunCtxDone
  with assms show ?thesis
    by (clarsimp simp: still_closed_def run_select_def split: if_splits option.splits)
next
  case RunCloseCh
  with assms show ?thesis
    by (clarsimp simp: still_closed_def run_select_def split: if_splits)
next
  case RunFailpoint
  with assms show ?thesis
    by (clarsimp simp: still_closed_def run_select_def split: if_splits list.splits)
next
  case (RunSuccesses b)
  with assms show ?thesis
    by (cases b)
      (clarsimp simp: still_closed_def run_select_def ack_received_def Let_def
        split: if_splits option.splits)+
next
  case (RunErrors e)
  with assms show ?thesis
    by (cases e) (clarsimp simp: still_closed_def run_select_def split: if_splits)+
qed

lemma still_closed_step:
  "still_closed k0 k \<Longrightarrow> step a k = Some (r, k') \<Longrightarrow> still_closed k0 k'"
  by (cases a)
    (blast intro: still_closed_SendEnter still_closed_SendFailpoint still_closed_SendCount
      still_closed_SendSelect still_closed_SyncBroadcast still_closed_FlushEnter
      still_closed_FlushSelect still_closed_RunSelect still_closed_RunDeferSwap
      still_closed_RunDeferCloseCh still_closed_CloseSwap still_closed_CloseCloseCh
      still_closed_CloseRelease still_closed_SetFailpoint)+

lemma sendCounted_SendEnter:
  "step (ASendEnter) k = Some (r, k') \<Longrightarrow> sendCounted k \<le> sendCounted k'"
  by (clarsimp simp: AsyncSendMessage_enter_def split: if_splits)

lemma sendCounted_SendFailpoint:
  "step (ASendFailpoint) k = Some (r, k') \<Longrightarrow> sendCounted k \<le> sendCounted k'"
  by (clarsimp simp: AsyncSendMessage_failpoint_def split: if_splits)

lemma sendCounted_SendCount:
  "step (ASendCount) k = Some (r, k') \<Longrightarrow> sendCounted k \<le> sendCounted k'"
  by (clarsimp simp: AsyncSendMessage_count_def split: if_splits)

lemma sendCounted_SendSelect:
  "step (ASendSelect ctx c) k = Some (r, k') \<Longrightarrow> sendCounted k \<le> sendCounted k'"
  by (clarsimp simp: AsyncSendMessage_select_def
      split: if_splits send_case.splits option.splits)

lemma sendCounted_SyncBroadcast:
  "step (ASyncBroadcast ctx sm c) k = Some (r, k') \<Longrightarrow> sendCounted k \<le> sendCounted k'"
  by (clarsimp simp: SyncBroadcastMessage_def split: if_splits sync_case.splits option.splits)

lemma sendCounted_FlushEnter:
  "step (AFlushEnter) k = Some (r, k') \<Longrightarrow> sendCounted k \<le> sendCounted k'"
  by (clarsimp simp: Flush_enter_def Let_def split: if_splits)

lemma sendCounted_FlushSelect:
  "step (AFlushSelect ctx c) k = Some (r, k') \<Longrightarrow> sendCounted k \<le> sendCounted k'"
  by (clarsimp simp: Flush_select_def
      split: if_splits sender_pc.splits flush_case.splits option.splits)

lemma sendCounted_RunDeferSwap:
  "step (ARunDeferSwap) k = Some (r, k') \<Longrightarrow> sendCounted k \<le> sendCounted k'"
  by (clarsimp simp: run_defer_swap_def swap_closing_def split: if_splits run_pc.splits)

lemma sendCounted_RunDeferCloseCh:
  "step (ARunDeferCloseCh) k = Some (r, k') \<Longrightarrow> sendCounted k \<le> sendCounted k'"
  by (clarsimp simp: run_defer_closeCh_def close_closeCh_def split: if_splits run_pc.splits)

lemma sendCounted_CloseSwap:
  "step (ACloseSwap) k = Some (r, k') \<Longrightarrow> sendCounted k \<le> sendCounted k'"
  by (clarsimp simp: Close_swap_def swap_closing_def split: if_splits)

lemma sendCounted_CloseCloseCh:
  "step (ACloseCloseCh) k = Some (r, k') \<Longrightarrow> sendCounted k \<le> sendCounted k'"
  by (clarsimp simp: Close_closeCh_def close_closeCh_def split: if_splits)

lemma sendCounted_CloseRelease:
  "step (ACloseRelease res) k = Some (r, k') \<Longrightarrow> sendCounted k \<le> sendCounted k'"
  by (clarsimp simp: Close_release_def Close_locked_def close_resource_def Let_def
      split: if_splits)

lemma sendCounted_SetFailpoint:
  "step (ASetFailpoint b) k = Some (r, k') \<Longrightarrow> sendCounted k \<le> sendCounted k'"
  by (clarsimp simp: set_failpoint_def split: if_splits)

lemma sendCounted_RunSelect:
  assumes "step (ARunSelect ctx c) k = Some (r, k')"
  shows "sendCounted k \<le> sendCounted k'"
proof (cases c)
  case RunCtxDone
  with assms show ?thesis
    by (clarsimp simp: run_select_def split: if_splits option.splits)
next
  case RunCloseCh
  with assms show ?thesis
    by (clarsimp simp: run_select_def split: if_splits)
next
  case RunFailpoint
  with assms show ?thesis
    by (clarsimp simp: run_select_def split: if_splits list.splits)
next
  case (RunSuccesses b)
  with assms show ?thesis
    by (cases b)
      (clarsimp simp: run_select_def ack_received_def Let_def
        split: if_splits option.splits)+
next
  case (RunErrors e)
  with assms show ?thesis
    by (cases e) (clarsimp simp: run_select_def split: if_splits)+
qed

lemma sendCounted_step:
  "step a k = Some (r, k') \<Longrightarrow> sendCounted k \<le> sendCounted k'"
  by (cases a)
    (blast intro: sendCounted_SendEnter sendCounted_SendFailpoint sendCounted_SendCount
      sendCounted_SendSelect sendCounted_SyncBroadcast sendCounted_FlushEnter
      sendCounted_FlushSelect sendCounted_RunSelect sendCounted_RunDeferSwap
      sendCounted_RunDeferCloseCh sendCounted_CloseSwap sendCounted_CloseCloseCh
      sendCounted_CloseRelease sendCounted_SetFailpoint)+

subsection \<open>Every execution keeps them\<close>

lemma counting_inv_init: "counting_inv (NewKafkaSaramaProducer fp)"
  by (simp add: counting_inv_def NewKafkaSaramaProducer_def)

lemma flush_inv_init: "flush_inv (NewKafkaSaramaProducer fp)"
  by (simp add: flush_inv_def NewKafkaSaramaProducer_def)

lemma shutdown_inv_init: "shutdown_inv (NewKafkaSaramaProducer fp)"
  by (simp add: shutdown_inv_def NewKafkaSaramaProducer_def)

lemma exec_Cons_Some:
  assumes "exec (a # acts) k = Some (rs, k')"
  obtains r k1 rs1 where "step a k = Some (r, k1)" and "exec acts k1 = Some (rs1, k')"
  using assms by (auto split: option.splits)

lemma sendCounted_exec:
  "exec acts k = Some (rs, k') \<Longrightarrow> sendCounted k \<le> sendCounted k'"
proof (induction acts arbitrary: k rs)
  case Nil
  then show ?case by simp
next
  case (Cons a acts)
  from Cons.prems obtain r k1 rs1 where s: "step a k = Some (r, k1)"
    and e: "exec acts k1 = Some (rs1, k')"
    by (rule exec_Cons_Some)
  from s have "sendCounted k \<le> sendCounted k1"
    by (rule sendCounted_step)
  also from e have "sendCounted k1 \<le> sendCounted k'"
    by (rule Cons.IH)
  finally show ?case .
qed

lemma shutdown_inv_exec:
  "shutdown_inv k \<Longrightarrow> exec acts k = Some (rs, k') \<Longrightarrow> shutdown_inv k'"
proof (induction acts arbitrary: k rs)
  case Nil
  then show ?case by simp
next
  case (Cons a acts)
  from Cons.prems(2) obtain r k1 rs1 where s: "step a k = Some (r, k1)"
    and e: "exec acts k1 = Some (rs1, k')"
    by (rule exec_Cons_Some)
  from Cons.prems(1) s have "shutdown_inv k1"
    by (rule shutdown_inv_step)
  then show ?case
    using e by (rule Cons.IH)
qed

lemma counting_flush_inv_exec:
  assumes "counting_inv k \<and> flush_inv k" and "exec acts k = Some (rs, k')"
    and "sendCounted k' < 2 ^ 64"
  shows "counting_inv k' \<and> flush_inv k'"
  using assms
proof (induction acts arbitrary: k rs)
  case Nil
  then show ?case by simp
next
  case (Cons a acts)
  from Cons.prems(2) obtain r k1 rs1 where s: "step a k = Some (r, k1)"
    and e: "exec acts k1 = Some (rs1, k')"
    by (rule exec_Cons_Some)
  have "sendCounted k \<le> sendCounted k'"
    using Cons.prems(2) by (rule sendCounted_exec)
  with Cons.prems(3) have b: "sendCounted k < 2 ^ 64"
    by simp
  from Cons.prems(1) have ck: "counting_inv k" and fk: "flush_inv k"
    by blast+
  from ck s have c: "counting_inv k1"
    by (rule counting_inv_step)
  have "0 < accepted k \<longrightarrow> inflight k \<noteq> 0"
    using inflight_nonzero [OF ck b] by blast
  with fk have "flush_inv k1"
    using s by (rule flush_inv_step)
  with c have "counting_inv k1 \<and> flush_inv k1" ..
  then show ?case
    using e Cons.prems(3) by (rule Cons.IH)
qed

lemma shutdown_inv_reachable:
  "exec acts (NewKafkaSaramaProducer fp) = Some (rs, k) \<Longrightarrow> shutdown_inv k"
  using shutdown_inv_init shutdown_inv_exec by blast

lemma counting_flush_inv_reachable:
  "exec acts (NewKafkaSaramaProducer fp) = Some (rs, k) \<Longrightarrow> sendCounted k < 2 ^ 64 \<Longrightarrow>
   counting_inv k \<and> flush_inv k"
  using counting_inv_init flush_inv_init counting_flush_inv_exec by blast

lemma Flush_enter_returns_nil:
  assumes "counting_inv k" and "sendCounted k < 2 ^ 64"
    and "Flush_enter k = Some (Returns None, k')"
  shows "inflight k' = 0 \<and> acksConsumed k' = sendCounted k' \<and>
         acksConsumed k' + sendDropped k' + sendInjected k' = sendCalls k'"
proof -
  from assms(3) have i: "inflight k = 0" and s: "sender k = Idle"
    and k': "k' = k\<lparr>chanMade := chanMade k + 1, chanBuf := (chanBuf k)(chanMade k := 0)\<rparr>"
    by (auto simp: Flush_enter_def Let_def split: if_splits)
  from i assms(1,2) have "acksConsumed k = sendCounted k"
    by (simp add: inflight_zero_iff)
  with assms(1) s i show ?thesis
    by (simp add: k' counting_inv_def)
qed

lemma Flush_select_returns_nil:
  assumes "counting_inv k" and "sendCounted k < 2 ^ 64" and "flush_inv k"
    and "Flush_select ctx c k = Some (Returns None, k')"
  shows "inflight k' = 0 \<and> acksConsumed k' = sendCounted k' \<and>
         acksConsumed k' + sendDropped k' + sendInjected k' = sendCalls k'"
proof -
  from assms(4) obtain d where s: "sender k = FlushWaiting d" and b: "0 < chanBuf k d"
    and k': "k' = k\<lparr>chanBuf := (chanBuf k)(d := chanBuf k d - 1), sender := Idle\<rparr>"
    by (auto simp: Flush_select_def
        split: if_splits sender_pc.splits flush_case.splits option.splits)
  from assms(3) s b have i: "inflight k = 0"
    by (auto simp: flush_inv_def)
  with assms(1,2) have "acksConsumed k = sendCounted k"
    by (simp add: inflight_zero_iff)
  with assms(1) s i show ?thesis
    by (simp add: k' counting_inv_def)
qed

lemma Flush_returns_nil:
  assumes "counting_inv k" and "sendCounted k < 2 ^ 64" and "flush_inv k"
    and "step a k = Some (Returns None, k')"
    and "a = AFlushEnter \<or> (\<exists>ctx c. a = AFlushSelect ctx c)"
  shows "inflight k' = 0 \<and> acksConsumed k' = sendCounted k' \<and>
         acksConsumed k' + sendDropped k' + sendInjected k' = sendCalls k'"
proof -
  from assms(5) consider "a = AFlushEnter" | ctx c where "a = AFlushSelect ctx c"
    by blast
  then show ?thesis
  proof cases
    case 1
    with assms(4) have "Flush_enter k = Some (Returns None, k')" by simp
    with assms(1,2) show ?thesis by (rule Flush_enter_returns_nil)
  next
    case 2
    with assms(4) have "Flush_select ctx c k = Some (Returns None, k')" by simp
    with assms(1,2,3) show ?thesis by (rule Flush_select_returns_nil)
  qed
qed

lemmas exec_defs =
  NewKafkaSaramaProducer_def AsyncSendMessage_enter_def AsyncSendMessage_failpoint_def
  AsyncSendMessage_count_def AsyncSendMessage_select_def SyncBroadcastMessage_def
  Flush_enter_def Flush_select_def run_select_def ack_received_def run_defer_swap_def
  run_defer_closeCh_def Close_swap_def Close_closeCh_def Close_release_def Close_locked_def
  close_resource_def swap_closing_def close_closeCh_def WrapError_def Let_def
  asyncProducerClosed_def set_failpoint_def

subsection \<open>\<open>Flush\<close> and the counter\<close>

text \<open>
  C1, as amended. In every execution (one caller of \<open>AsyncSendMessage\<close> and \<open>Flush\<close>, any
  interleaving with \<open>run\<close>, \<open>Close\<close> and \<open>SyncBroadcastMessage\<close>) in which fewer than
  \<open>2 ^ 64\<close> calls were counted, at the moment \<open>Flush\<close> returns \<open>nil\<close> (at once, or from
  its \<open>select\<close>), \<open>run\<close> has consumed one acknowledgment for every call of
  \<open>AsyncSendMessage\<close> that reached \<open>inflight++\<close>; and these are all the calls made so far
  but those that returned at the closing check and those the failpoint answered.
\<close>

theorem Flush_nil_only_after_acks:
  assumes "exec acts (NewKafkaSaramaProducer fp) = Some (rs, k)"
    and "sendCounted k < 2 ^ 64"
    and "step a k = Some (Returns None, k')"
    and "a = AFlushEnter \<or> (\<exists>ctx c. a = AFlushSelect ctx c)"
  shows "acksConsumed k' = sendCounted k' \<and>
         acksConsumed k' + sendDropped k' + sendInjected k' = sendCalls k'"
proof -
  from assms(1,2) have "counting_inv k" "flush_inv k"
    using counting_flush_inv_reachable by blast+
  then show ?thesis
    using Flush_returns_nil [OF _ assms(2) _ assms(3,4)] by blast
qed

text \<open>
  One message is sent and handed over, \<open>Flush\<close> waits, \<open>run\<close> consumes the acknowledgment,
  and \<open>Flush\<close> returns \<open>nil\<close>: one call, one acknowledgment.
\<close>

theorem Flush_nil_only_after_acks_witness:
  "(case exec [ASendEnter, ASendCount, ASendSelect None SendInput, AFlushEnter,
               ARunSelect None (RunSuccesses True)] (NewKafkaSaramaProducer False) of
      None \<Rightarrow> False
    | Some (rs, k) \<Rightarrow>
        (case step (AFlushSelect None FlushDone) k of
           None \<Rightarrow> False
         | Some (r, k') \<Rightarrow>
             r = Returns None \<and> sendCalls k' = 1 \<and> sendCounted k' = 1 \<and> acksConsumed k' = 1))"
proof -
  let ?acts = "[ASendEnter, ASendCount, ASendSelect None SendInput, AFlushEnter,
               ARunSelect None (RunSuccesses True)]"
  have "\<exists>rs k. exec ?acts (NewKafkaSaramaProducer False) = Some (rs, k)"
    by (simp add: exec_defs)
  then obtain rs k where e: "exec ?acts (NewKafkaSaramaProducer False) = Some (rs, k)"
    by blast
  from e have "sendCounted k < 2 ^ 64 \<and>
      (\<exists>k'. step (AFlushSelect None FlushDone) k = Some (Returns None, k') \<and>
        sendCalls k' = 1 \<and> sendDropped k' = 0 \<and> sendInjected k' = 0)"
    by (auto simp: exec_defs)
  then obtain k' where b: "sendCounted k < 2 ^ 64"
    and s: "step (AFlushSelect None FlushDone) k = Some (Returns None, k')"
    and c: "sendCalls k' = 1" "sendDropped k' = 0" "sendInjected k' = 0"
    by blast
  have "acksConsumed k' = sendCounted k' \<and>
        acksConsumed k' + sendDropped k' + sendInjected k' = sendCalls k'"
    using Flush_nil_only_after_acks [OF e b s] by blast
  with e s c show ?thesis
    by simp
qed

text \<open>
  C1 as stated fails: after a call of \<open>Close\<close>, a call of \<open>AsyncSendMessage\<close> returns \<open>nil\<close>
  at the closing check without counting the message, and the \<open>Flush\<close> that follows
  returns \<open>nil\<close> at once: one message submitted, no acknowledgment consumed.
\<close>

theorem Flush_nil_only_after_acks_counterexample:
  "map_option fst
     (exec [ACloseSwap, ACloseCloseCh, ACloseRelease close_results_ok, ASendEnter, AFlushEnter]
        (NewKafkaSaramaProducer False))
   = Some [Continues, Continues, Returns None, Returns None, Returns None]
   \<and> map_option (sendCalls \<circ> snd)
     (exec [ACloseSwap, ACloseCloseCh, ACloseRelease close_results_ok, ASendEnter, AFlushEnter]
        (NewKafkaSaramaProducer False))
   = Some 1
   \<and> map_option (acksConsumed \<circ> snd)
     (exec [ACloseSwap, ACloseCloseCh, ACloseRelease close_results_ok, ASendEnter, AFlushEnter]
        (NewKafkaSaramaProducer False))
   = Some 0"
  by (simp add: exec_defs close_results_ok_def)

text \<open>
  C2. In every execution in which fewer than \<open>2 ^ 63\<close> calls were counted, \<open>inflight\<close> is
  never negative, and it is 0 when \<open>Flush\<close> returns \<open>nil\<close>. (The async producer reports on
  \<open>Successes()\<close> only messages it was handed, each once; \<open>AsyncSendMessage\<close> and \<open>Flush\<close>
  have one caller.)
\<close>

theorem inflight_never_negative:
  assumes "exec acts (NewKafkaSaramaProducer fp) = Some (rs, k)"
    and "sendCounted k < 2 ^ 63"
  shows "0 \<le> sint (inflight k) \<and>
         sint (inflight k) = int (sendCounted k) - int (acksConsumed k) \<and>
         (\<forall>a k'. (a = AFlushEnter \<or> (\<exists>ctx c. a = AFlushSelect ctx c)) \<longrightarrow>
                 step a k = Some (Returns None, k') \<longrightarrow> inflight k' = 0)"
proof -
  from assms(2) have b: "sendCounted k < 2 ^ 64"
    by simp
  with assms(1) have inv: "counting_inv k" "flush_inv k"
    using counting_flush_inv_reachable by blast+
  then have i: "inflight k = word_of_nat (sendCounted k) - word_of_nat (acksConsumed k)"
    and le: "acksConsumed k \<le> sendCounted k"
    by (auto simp: counting_inv_def split: if_splits)
  from le assms(2) have s: "sint (inflight k) = int (sendCounted k) - int (acksConsumed k)"
    unfolding i by (rule sint_word_of_nat_diff_64)
  with le have "0 \<le> sint (inflight k)"
    by simp
  moreover have "inflight k' = 0"
    if "a = AFlushEnter \<or> (\<exists>ctx c. a = AFlushSelect ctx c)" "step a k = Some (Returns None, k')"
    for a k'
    using Flush_returns_nil [OF inv(1) b inv(2) that(2) that(1)] by blast
  ultimately show ?thesis
    using s by blast
qed

text \<open>Two messages are sent, \<open>Flush\<close> waits, both are acknowledged, \<open>Flush\<close> returns \<open>nil\<close>.\<close>

theorem inflight_never_negative_witness:
  "(case exec [ASendEnter, ASendCount, ASendSelect None SendInput, ASendEnter, ASendCount,
               ASendSelect None SendInput, AFlushEnter, ARunSelect None (RunSuccesses True),
               ARunSelect None (RunSuccesses True)] (NewKafkaSaramaProducer False) of
      None \<Rightarrow> False
    | Some (rs, k) \<Rightarrow>
        0 \<le> sint (inflight k) \<and>
        (case step (AFlushSelect None FlushDone) k of
           None \<Rightarrow> False
         | Some (r, k') \<Rightarrow> r = Returns None \<and> inflight k' = 0))"
proof -
  let ?acts = "[ASendEnter, ASendCount, ASendSelect None SendInput, ASendEnter, ASendCount,
               ASendSelect None SendInput, AFlushEnter, ARunSelect None (RunSuccesses True),
               ARunSelect None (RunSuccesses True)]"
  have "\<exists>rs k. exec ?acts (NewKafkaSaramaProducer False) = Some (rs, k)"
    by (simp add: exec_defs)
  then obtain rs k where e: "exec ?acts (NewKafkaSaramaProducer False) = Some (rs, k)"
    by blast
  from e have "sendCounted k < 2 ^ 63 \<and>
      (\<exists>k'. step (AFlushSelect None FlushDone) k = Some (Returns None, k'))"
    by (auto simp: exec_defs)
  then obtain k' where b: "sendCounted k < 2 ^ 63"
    and s: "step (AFlushSelect None FlushDone) k = Some (Returns None, k')"
    by blast
  have "0 \<le> sint (inflight k) \<and> inflight k' = 0"
    using inflight_never_negative [OF e b] s by blast
  with e s show ?thesis
    by simp
qed

text \<open>
  C6, as amended. \<open>Flush\<close> returns \<open>nil\<close> at once, registering nothing, when \<open>inflight\<close> is 0
  at the call. Otherwise it registers its new, empty channel and waits: no case of its
  \<open>select\<close> can proceed while \<open>closeCh\<close> is open, the context is not done and the channel
  is empty. Once \<open>closeCh\<close> is closed it does not hang: the case of \<open>closeCh\<close> can proceed
  and returns \<open>ErrKafkaFlushUnfinished\<close>, and this is the only result when the context is
  not done and the channel is empty.
\<close>

theorem Flush_immediate_or_waits:
  "(sender k = Idle \<and> inflight k = 0 \<longrightarrow>
      (\<exists>k'. Flush_enter k = Some (Returns None, k') \<and> flushDone k' = flushDone k \<and>
            sender k' = Idle))
   \<and> (sender k = Idle \<and> inflight k \<noteq> 0 \<longrightarrow>
      (\<exists>k'. Flush_enter k = Some (Continues, k') \<and> flushDone k' = Some (chanMade k) \<and>
            sender k' = FlushWaiting (chanMade k) \<and> chanBuf k' (chanMade k) = 0))
   \<and> (sender k = FlushWaiting done \<and> \<not> closeCh k \<and> chanBuf k done = 0 \<longrightarrow>
        (\<forall>c. Flush_select None c k = None))
   \<and> (sender k = FlushWaiting done \<and> closeCh k \<longrightarrow>
        Flush_select ctx FlushCloseCh k =
          Some (Returns (Some ErrKafkaFlushUnfinished), k\<lparr>sender := Idle\<rparr>) \<and>
        (ctx = None \<and> chanBuf k done = 0 \<longrightarrow>
           (\<forall>c r k'. Flush_select ctx c k = Some (r, k') \<longrightarrow>
              r = Returns (Some ErrKafkaFlushUnfinished))))"
  by (auto simp: Flush_enter_def Flush_select_def Let_def split: flush_case.splits)

text \<open>
  On a new producer \<open>Flush\<close> returns at once; with two messages in flight it registers
  channel 0 and its \<open>select\<close> cannot proceed; after \<open>stop\<close> the waiting \<open>Flush\<close> returns
  \<open>ErrKafkaFlushUnfinished\<close>.
\<close>

theorem Flush_immediate_or_waits_witness:
  "(\<exists>k'. Flush_enter (NewKafkaSaramaProducer False) = Some (Returns None, k') \<and>
         flushDone k' = None \<and> sender k' = Idle)
   \<and> (\<exists>k'. Flush_enter ((NewKafkaSaramaProducer False)\<lparr>inflight := 2\<rparr>) = Some (Continues, k') \<and>
         flushDone k' = Some 0 \<and> sender k' = FlushWaiting 0)
   \<and> Flush_select None FlushDone
         ((NewKafkaSaramaProducer False)\<lparr>inflight := 2, flushDone := Some 0,
            sender := FlushWaiting 0\<rparr>) = None
   \<and> Flush_select None FlushCloseCh flush_waiting_closed =
         Some (Returns (Some ErrKafkaFlushUnfinished), flush_waiting_closed\<lparr>sender := Idle\<rparr>)"
proof -
  let ?k0 = "NewKafkaSaramaProducer False"
  let ?k1 = "(NewKafkaSaramaProducer False)\<lparr>inflight := 2\<rparr>"
  let ?k2 = "(NewKafkaSaramaProducer False)\<lparr>inflight := 2, flushDone := Some 0,
            sender := FlushWaiting 0\<rparr>"
  have a: "sender ?k0 = Idle \<and> inflight ?k0 = 0" "flushDone ?k0 = None"
    by (simp_all add: NewKafkaSaramaProducer_def)
  have b: "sender ?k1 = Idle \<and> inflight ?k1 \<noteq> 0" "chanMade ?k1 = 0"
    by (simp_all add: NewKafkaSaramaProducer_def)
  have c: "sender ?k2 = FlushWaiting 0 \<and> \<not> closeCh ?k2 \<and> chanBuf ?k2 0 = 0"
    by (simp add: NewKafkaSaramaProducer_def)
  have d: "sender flush_waiting_closed = FlushWaiting 0 \<and> closeCh flush_waiting_closed"
    by (simp add: flush_waiting_closed_def)
  from a Flush_immediate_or_waits [of ?k0 0 None]
  have 1: "\<exists>k'. Flush_enter ?k0 = Some (Returns None, k') \<and> flushDone k' = None \<and> sender k' = Idle"
    by simp
  from b Flush_immediate_or_waits [of ?k1 0 None]
  have 2: "\<exists>k'. Flush_enter ?k1 = Some (Continues, k') \<and> flushDone k' = Some 0 \<and>
      sender k' = FlushWaiting 0"
    by auto
  from c Flush_immediate_or_waits [of ?k2 0 None]
  have 3: "Flush_select None FlushDone ?k2 = None"
    by blast
  from d Flush_immediate_or_waits [of flush_waiting_closed 0 None]
  have 4: "Flush_select None FlushCloseCh flush_waiting_closed =
         Some (Returns (Some ErrKafkaFlushUnfinished), flush_waiting_closed\<lparr>sender := Idle\<rparr>)"
    by blast
  from 1 2 3 4 show ?thesis by blast
qed

text \<open>
  C6 as stated fails: a \<open>select\<close> takes any case that can proceed. In the first execution
  \<open>Flush\<close> waits, \<open>stop\<close> closes \<open>closeCh\<close>, \<open>run\<close> still takes the acknowledgment and
  notifies, and \<open>Flush\<close> takes the notification and returns \<open>nil\<close>. In the second the
  context is cancelled as well, and \<open>Flush\<close> returns the context's error.
\<close>

theorem Flush_immediate_or_waits_counterexample:
  "map_option fst
     (exec [ASendEnter, ASendCount, ASendSelect None SendInput, AFlushEnter, ACloseSwap,
            ACloseCloseCh, ARunSelect None (RunSuccesses True), AFlushSelect None FlushDone]
        (NewKafkaSaramaProducer False))
   = Some [Continues, Continues, Returns None, Continues, Continues, Continues, Continues,
           Returns None]
   \<and> map_option fst
     (exec [ASendEnter, ASendCount, ASendSelect None SendInput, AFlushEnter, ACloseSwap,
            ACloseCloseCh, AFlushSelect (Some Canceled) FlushCtxDone]
        (NewKafkaSaramaProducer False))
   = Some [Continues, Continues, Returns None, Continues, Continues, Continues,
           Returns (Some (ErrContext Canceled))]"
  by (simp add: exec_defs)

subsection \<open>After shutdown\<close>

lemma still_closed_exec:
  "still_closed k0 k \<Longrightarrow> exec acts k = Some (rs, k') \<Longrightarrow> still_closed k0 k'"
proof (induction acts arbitrary: k rs)
  case Nil
  then show ?case by simp
next
  case (Cons a acts)
  from Cons.prems(2) obtain r k1 rs1 where s: "step a k = Some (r, k1)"
    and e: "exec acts k1 = Some (rs1, k')"
    by (auto split: option.splits)
  from Cons.prems(1) s have "still_closed k0 k1"
    by (rule still_closed_step)
  then show ?case
    using e by (rule Cons.IH)
qed

lemma AsyncSendMessage_closing:
  "closing k = kafkaProducerClosing \<Longrightarrow> sender k = Idle \<Longrightarrow>
   AsyncSendMessage_enter k =
     Some (Returns None, k\<lparr>sendCalls := sendCalls k + 1, sendDropped := sendDropped k + 1\<rparr>)"
  by (simp add: AsyncSendMessage_enter_def)

lemma SyncBroadcastMessage_closed:
  assumes "closeCh k"
  shows "SyncBroadcastMessage ctx sendMessages SyncCloseCh k = Some (Returns None, k)"
    and "SyncBroadcastMessage ctx sendMessages c k = Some (r, k') \<Longrightarrow>
         k' = k \<and> (r = Returns None \<or> (\<exists>e. ctx = Some e \<and> r = Returns (Some (ErrContext e))))"
  using assms
  by (auto simp: SyncBroadcastMessage_def split: sync_case.splits option.splits if_splits)

text \<open>
  The closing check of \<open>AsyncSendMessage\<close> reads the flag under \<open>clientLock\<close>: from a state
  in which the flag is closing, in every later state a call returns \<open>nil\<close> at the check and
  changes nothing but the two counters of calls.
\<close>

lemma AsyncSendMessage_after_closing:
  assumes "exec acts k0 = Some (rs, k)" and "closing k0 = kafkaProducerClosing"
    and "sender k = Idle"
  shows "AsyncSendMessage_enter k =
           Some (Returns None,
                 k\<lparr>sendCalls := sendCalls k + 1, sendDropped := sendDropped k + 1\<rparr>)"
proof -
  have "still_closed k0 k0"
    by (simp add: still_closed_def)
  then have "still_closed k0 k"
    using assms(1) by (rule still_closed_exec)
  with assms(2,3) show ?thesis
    by (simp add: still_closed_def AsyncSendMessage_closing)
qed

text \<open>
  C7. After the producer has gone to closing, every call of \<open>AsyncSendMessage\<close> and of
  \<open>SyncBroadcastMessage\<close> is to return \<open>nil\<close> without a transport operation. The code breaks
  this for \<open>SyncBroadcastMessage\<close>, which reads \<open>closeCh\<close> and not the flag. In this
  execution \<open>run\<close> leaves its loop on a cancelled context and wins the swap in \<open>stop\<close>; a
  call of \<open>Close\<close> loses the swap, releases the four resources and returns \<open>nil\<close>; the flag
  is closing and \<open>closeCh\<close> is still open. A call of \<open>SyncBroadcastMessage\<close> with a live
  context then takes the \<open>default\<close> case, calls \<open>SendMessages\<close> on the released sync
  producer and returns its error; a call of \<open>AsyncSendMessage\<close> in the same state returns
  \<open>nil\<close> at its closing check.
\<close>

theorem SyncBroadcastMessage_after_release:
  "map_option fst
     (exec [ARunSelect (Some Canceled) RunCtxDone, ARunDeferSwap, ACloseSwap,
            ACloseRelease close_results_ok,
            ASyncBroadcast None (Some (ErrFacade ''producer closed'')) SyncDefault]
        (NewKafkaSaramaProducer False))
   = Some [Continues, Continues, Continues, Returns None,
           Returns (Some (ErrKafkaSendMessage (ErrFacade ''producer closed'')))]
   \<and> map_option (syncSends \<circ> snd)
     (exec [ARunSelect (Some Canceled) RunCtxDone, ARunDeferSwap, ACloseSwap,
            ACloseRelease close_results_ok,
            ASyncBroadcast None (Some (ErrFacade ''producer closed'')) SyncDefault]
        (NewKafkaSaramaProducer False))
   = Some 1
   \<and> map_option (producersReleased \<circ> snd)
     (exec [ARunSelect (Some Canceled) RunCtxDone, ARunDeferSwap, ACloseSwap,
            ACloseRelease close_results_ok]
        (NewKafkaSaramaProducer False))
   = Some True
   \<and> map_option (closing \<circ> snd)
     (exec [ARunSelect (Some Canceled) RunCtxDone, ARunDeferSwap, ACloseSwap,
            ACloseRelease close_results_ok]
        (NewKafkaSaramaProducer False))
   = Some kafkaProducerClosing
   \<and> map_option (closeCh \<circ> snd)
     (exec [ARunSelect (Some Canceled) RunCtxDone, ARunDeferSwap, ACloseSwap,
            ACloseRelease close_results_ok]
        (NewKafkaSaramaProducer False))
   = Some False
   \<and> map_option fst
     (exec [ARunSelect (Some Canceled) RunCtxDone, ARunDeferSwap, ACloseSwap,
            ACloseRelease close_results_ok, ASendEnter]
        (NewKafkaSaramaProducer False))
   = Some [Continues, Continues, Continues, Returns None, Returns None]
   \<and> map_option (sendDropped \<circ> snd)
     (exec [ARunSelect (Some Canceled) RunCtxDone, ARunDeferSwap, ACloseSwap,
            ACloseRelease close_results_ok, ASendEnter]
        (NewKafkaSaramaProducer False))
   = Some 1"
  by (simp add: exec_defs close_results_ok_def)

subsection \<open>\<open>stop\<close> and \<open>Close\<close>\<close>

lemma stop_twice:
  "stop (stop k) = (stop k)\<lparr>stopCalls := stopCalls (stop k) + 1\<rparr>"
  by (simp add: stop_def swap_closing_def close_closeCh_def)

lemma Close_again:
  assumes "producersReleased k" and "closing k = kafkaProducerClosing"
  shows "Close res k = (None, k\<lparr>stopCalls := stopCalls k + 1\<rparr>)"
  using assms by (simp add: Close_def stop_def swap_closing_def Close_locked_def)

lemma Close_release_again:
  assumes "producersReleased k" and "Close_release res k = Some (r, k')"
  shows "r = Returns None \<and> released k' = released k \<and> producersReleased k'"
  using assms by (auto simp: Close_release_def Close_locked_def split: if_splits)

text \<open>
  C8. In every execution, with any number of calls of \<open>Close\<close> and the \<open>stop\<close> of \<open>run\<close>
  interleaved in any way: the flag has gone from running to closing at most once, and
  exactly once as soon as \<open>stop\<close> was called; \<open>closeCh\<close> has been closed at most once, and
  exactly once when no caller of \<open>stop\<close> is between its swap and its \<open>close\<close>; no resource
  has been released twice; a second \<open>stop\<close> changes nothing but the count of calls; and once
  the resources are released, a call of \<open>Close\<close> returns \<open>nil\<close> and changes nothing but the
  count of calls.
\<close>

theorem stop_Close_idempotent:
  assumes "exec acts (NewKafkaSaramaProducer fp) = Some (rs, k)"
  shows "transitions k \<le> 1 \<and> closeChCloses k \<le> 1 \<and> distinct (map fst (released k))
       \<and> (0 < stopCalls k \<longrightarrow> closing k = kafkaProducerClosing \<and> transitions k = 1)
       \<and> (0 < stopCalls k \<and> closersInStop k = 0 \<and> (\<forall>r. runLoop k \<noteq> RunClosingCh r) \<longrightarrow>
            closeCh k \<and> closeChCloses k = 1)
       \<and> stop (stop k) = (stop k)\<lparr>stopCalls := stopCalls (stop k) + 1\<rparr>
       \<and> (producersReleased k \<longrightarrow>
            Close res k = (None, k\<lparr>stopCalls := stopCalls k + 1\<rparr>) \<and>
            (\<forall>r k'. Close_release res k = Some (r, k') \<longrightarrow>
               r = Returns None \<and> released k' = released k))"
proof -
  from assms have inv: "shutdown_inv k"
    by (rule shutdown_inv_reachable)
  have 1: "transitions k \<le> 1 \<and> closeChCloses k \<le> 1"
    using inv by (simp add: shutdown_inv_def split: if_splits)
  have 2: "distinct (map fst (released k))"
    using inv by (auto simp: shutdown_inv_def)
  have 3: "0 < stopCalls k \<longrightarrow> closing k = kafkaProducerClosing \<and> transitions k = 1"
    using inv by (simp add: shutdown_inv_def)
  have 4: "0 < stopCalls k \<and> closersInStop k = 0 \<and> (\<forall>r. runLoop k \<noteq> RunClosingCh r) \<longrightarrow>
            closeCh k \<and> closeChCloses k = 1"
    using inv by (cases "runLoop k") (auto simp: shutdown_inv_def split: if_splits)
  have 5: "producersReleased k \<longrightarrow>
            Close res k = (None, k\<lparr>stopCalls := stopCalls k + 1\<rparr>) \<and>
            (\<forall>r k'. Close_release res k = Some (r, k') \<longrightarrow>
               r = Returns None \<and> released k' = released k)"
  proof
    assume p: "producersReleased k"
    with inv have "closing k = kafkaProducerClosing"
      by (simp add: shutdown_inv_def)
    with p have "Close res k = (None, k\<lparr>stopCalls := stopCalls k + 1\<rparr>)"
      by (rule Close_again)
    then show "Close res k = (None, k\<lparr>stopCalls := stopCalls k + 1\<rparr>) \<and>
            (\<forall>r k'. Close_release res k = Some (r, k') \<longrightarrow>
               r = Returns None \<and> released k' = released k)"
      using Close_release_again [OF p] by blast
  qed
  from 1 2 3 4 5 stop_twice show ?thesis by blast
qed

text \<open>
  A call of \<open>Close\<close> starts; \<open>run\<close> leaves its loop on a cancelled context and loses the
  swap; a second call of \<open>Close\<close> loses it too; the first closes \<open>closeCh\<close>; both release in
  turn. Three calls of \<open>stop\<close>, one transition, one \<open>close\<close>, four resources; the second
  release and a further \<open>Close\<close> return \<open>nil\<close>.
\<close>

theorem stop_Close_idempotent_witness:
  "(case exec [ACloseSwap, ARunSelect (Some Canceled) RunCtxDone, ARunDeferSwap, ACloseSwap,
               ACloseCloseCh, ACloseRelease close_results_failing, ACloseRelease close_results_ok]
          (NewKafkaSaramaProducer False) of
      None \<Rightarrow> False
    | Some (rs, k) \<Rightarrow>
        rs = [Continues, Continues, Returns (Some (ErrContext Canceled)), Continues, Continues,
              Returns None, Returns None] \<and>
        stopCalls k = 3 \<and> transitions k = 1 \<and> closeChCloses k = 1 \<and> closeCh k \<and>
        map fst (released k) = [Client, AsyncProducer, SyncProducer, AdminClient] \<and>
        Close close_results_ok k = (None, k\<lparr>stopCalls := 4\<rparr>))"
proof -
  let ?acts = "[ACloseSwap, ARunSelect (Some Canceled) RunCtxDone, ARunDeferSwap, ACloseSwap,
               ACloseCloseCh, ACloseRelease close_results_failing, ACloseRelease close_results_ok]"
  have "\<exists>rs k. exec ?acts (NewKafkaSaramaProducer False) = Some (rs, k)"
    by (simp add: exec_defs close_results_ok_def close_results_failing_def)
  then obtain rs k where e: "exec ?acts (NewKafkaSaramaProducer False) = Some (rs, k)"
    by blast
  from e have v: "rs = [Continues, Continues, Returns (Some (ErrContext Canceled)), Continues,
      Continues, Returns None, Returns None] \<and> stopCalls k = 3 \<and> producersReleased k \<and>
      closersInStop k = 0 \<and> runLoop k = RunExited (Some (ErrContext Canceled)) \<and>
      map fst (released k) = [Client, AsyncProducer, SyncProducer, AdminClient]"
    by (auto simp: exec_defs close_results_ok_def close_results_failing_def)
  with stop_Close_idempotent [OF e, of close_results_ok] e show ?thesis
    by simp
qed

lemma Close_locked_first:
  "\<not> producersReleased k \<Longrightarrow>
   Close_locked res k =
     (None, k\<lparr>producersReleased := True,
              released := released k @ [(Client, res Client), (AsyncProducer, res AsyncProducer),
                (SyncProducer, res SyncProducer), (AdminClient, res AdminClient)]\<rparr>)"
  by (simp add: Close_locked_def close_resource_def)

lemma stop_frame:
  "producersReleased (stop k) = producersReleased k \<and> released (stop k) = released k"
  by (simp add: stop_def swap_closing_def close_closeCh_def)

text \<open>
  C9. A call of \<open>Close\<close> that finds the resources not yet released calls \<open>Close()\<close> on the
  client, the async producer, the sync producer and the admin client, in this order,
  whatever each of them answers, and returns \<open>nil\<close>; so does the step of \<open>Close\<close> under
  \<open>clientLock\<close> in an interleaved execution.
\<close>

theorem Close_releases_in_order:
  assumes "\<not> producersReleased k"
  shows "fst (Close res k) = None \<and>
         released (snd (Close res k)) =
           released k @ [(Client, res Client), (AsyncProducer, res AsyncProducer),
             (SyncProducer, res SyncProducer), (AdminClient, res AdminClient)] \<and>
         (0 < closersAtLock k \<and> sender k \<noteq> SendChecked \<and> sender k \<noteq> SendCounted \<longrightarrow>
            (\<exists>k'. Close_release res k = Some (Returns None, k') \<and>
               released k' =
                 released k @ [(Client, res Client), (AsyncProducer, res AsyncProducer),
                   (SyncProducer, res SyncProducer), (AdminClient, res AdminClient)]))"
  using assms stop_frame [of k]
  by (simp add: Close_def Close_locked_first Close_release_def)

text \<open>On a new producer, with every \<open>Close()\<close> failing: all four are called, \<open>Close\<close> returns \<open>nil\<close>.\<close>

theorem Close_releases_in_order_witness:
  "fst (Close close_results_failing (NewKafkaSaramaProducer False)) = None \<and>
   released (snd (Close close_results_failing (NewKafkaSaramaProducer False))) =
     [(Client, Some (ErrFacade ''broker not available'')),
      (AsyncProducer, Some (ErrFacade ''broker not available'')),
      (SyncProducer, Some (ErrFacade ''broker not available'')),
      (AdminClient, Some (ErrFacade ''broker not available''))]"
proof -
  have "\<not> producersReleased (NewKafkaSaramaProducer False)"
    by (simp add: NewKafkaSaramaProducer_def)
  from Close_releases_in_order [OF this, of close_results_failing]
  show ?thesis
    by (simp add: NewKafkaSaramaProducer_def close_results_failing_def)
qed

section \<open>Properties of the relay configuration\<close>

lemma String_overwrite_Password:
  "String (c\<lparr>From := (From c)\<lparr>Password := p\<rparr>\<rparr>) = String c"
  by (simp add: String_def Config_fields_def DBConfig_fields_def)

text \<open>
  C10. Two configurations that are equal in every field but the password of the data
  source (they become equal when both passwords are overwritten with the same value)
  have the same \<open>String()\<close>.
\<close>

theorem String_hides_Password:
  assumes "c1\<lparr>From := (From c1)\<lparr>Password := p\<rparr>\<rparr> = c2\<lparr>From := (From c2)\<lparr>Password := p\<rparr>\<rparr>"
  shows "String c1 = String c2"
proof -
  have "String c1 = String (c1\<lparr>From := (From c1)\<lparr>Password := p\<rparr>\<rparr>)"
    by (simp only: String_overwrite_Password)
  also have "\<dots> = String (c2\<lparr>From := (From c2)\<lparr>Password := p\<rparr>\<rparr>)"
    by (simp only: assms)
  also have "\<dots> = String c2"
    by (simp only: String_overwrite_Password)
  finally show ?thesis .
qed

text \<open>Two passwords, one rendering, with no field for the password.\<close>

theorem String_hides_Password_witness:
  "String (scenario_config ''secret'') = String (scenario_config ''hunter2'') \<and>
   String (scenario_config ''secret'') =
     ''{\"enable-gtid\":true,\"auto-fix-gtid\":false,\"meta-file\":\"relay.meta\",''
     @ ''\"relay-dir\":\"./relay\",\"server-id\":101,\"flavor\":\"mysql\",\"charset\":\"utf8\",''
     @ ''\"verify-checksum\":false,\"data-source\":{\"host\":\"127.0.0.1\",\"user\":\"root\",''
     @ ''\"port\":3306}}''"
proof
  have "(scenario_config ''secret'')\<lparr>From := (From (scenario_config ''secret''))\<lparr>Password := []\<rparr>\<rparr>
      = (scenario_config ''hunter2'')\<lparr>From := (From (scenario_config ''hunter2''))\<lparr>Password := []\<rparr>\<rparr>"
    by (simp add: scenario_config_def)
  then show "String (scenario_config ''secret'') = String (scenario_config ''hunter2'')"
    by (rule String_hides_Password)
next
  show "String (scenario_config ''secret'') =
     ''{\"enable-gtid\":true,\"auto-fix-gtid\":false,\"meta-file\":\"relay.meta\",''
     @ ''\"relay-dir\":\"./relay\",\"server-id\":101,\"flavor\":\"mysql\",\"charset\":\"utf8\",''
     @ ''\"verify-checksum\":false,\"data-source\":{\"host\":\"127.0.0.1\",\"user\":\"root\",''
     @ ''\"port\":3306}}''"
    by (simp add: String_def scenario_config_def Config_fields_def DBConfig_fields_def
        encodeString_def encode_byte_def FormatInt_def decimal.simps digit_char_def Let_def)
qed

end
